theory Spec2Isabelle
  imports Complex_Main
begin

section \<open>Vectors, boxes and tiles\<close>

text \<open>
  The generator of \<^verbatim>\<open>TiledWorldGenerator.cpp\<close> works on \<^verbatim>\<open>Vector2f\<close>, \<^verbatim>\<open>AABBf\<close>,
  \<^verbatim>\<open>Tile\<close> and \<^verbatim>\<open>Node\<close>, whose headers are not among the sources. Their models below
  follow the uses in \<^verbatim>\<open>TiledWorldGenerator.cpp\<close>, the design comment at its lines 19-57 and
  the specification. A C++ \<^verbatim>\<open>float\<close> is modelled as a real number: rounding, infinities
  and NaN are outside the model, except for the palette thresholds, where a division by
  zero can happen and is written out. \<^verbatim>\<open>DrawWorld\<close> and the destructor are not modelled:
  they draw and free, and write none of the members the other functions read.
\<close>

text \<open>Modelled from the spec: the absent vector class, a pair of \<^verbatim>\<open>float\<close> members
  \<^verbatim>\<open>X\<close> and \<^verbatim>\<open>Y\<close> (read in \<^verbatim>\<open>DrawWorld\<close>).\<close>

record Vector2f =
  X :: real
  Y :: real

text \<open>Modelled from the spec: \<^verbatim>\<open>Vector2f::Zero\<close>, \<^verbatim>\<open>operator+\<close>, \<^verbatim>\<open>operator-\<close> and
  \<^verbatim>\<open>Magnitude\<close> of the absent vector header, with their usual componentwise meaning.\<close>

definition Vector2f_Zero :: Vector2f where
  "Vector2f_Zero = \<lparr>X = 0, Y = 0\<rparr>"

definition vadd :: "Vector2f \<Rightarrow> Vector2f \<Rightarrow> Vector2f" where
  "vadd a b = \<lparr>X = X a + X b, Y = Y a + Y b\<rparr>"

definition vsub :: "Vector2f \<Rightarrow> Vector2f \<Rightarrow> Vector2f" where
  "vsub a b = \<lparr>X = X a - X b, Y = Y a - Y b\<rparr>"

definition Magnitude :: "Vector2f \<Rightarrow> real" where
  "Magnitude v = sqrt (X v * X v + Y v * Y v)"

text \<open>Modelled from the spec: the absent box class, with the corners \<^verbatim>\<open>boxMin\<close> and
  \<^verbatim>\<open>boxMax\<close> that line 66 reads.\<close>

record AABBf =
  boxMin :: Vector2f
  boxMax :: Vector2f

text \<open>Modelled from the spec: containment and intersection tests of the absent
  \<^verbatim>\<open>AABBf\<close>, on closed boxes (a point or a box on an edge counts as inside).\<close>

definition AABB_contains :: "AABBf \<Rightarrow> Vector2f \<Rightarrow> bool" where
  "AABB_contains b p \<longleftrightarrow>
     X (boxMin b) \<le> X p \<and> X p \<le> X (boxMax b) \<and> Y (boxMin b) \<le> Y p \<and> Y p \<le> Y (boxMax b)"

definition AABB_intersects :: "AABBf \<Rightarrow> AABBf \<Rightarrow> bool" where
  "AABB_intersects a b \<longleftrightarrow>
     X (boxMin a) \<le> X (boxMax b) \<and> X (boxMin b) \<le> X (boxMax a) \<and>
     Y (boxMin a) \<le> Y (boxMax b) \<and> Y (boxMin b) \<le> Y (boxMax a)"

text \<open>Modelled from the spec: the enumeration of the absent \<^verbatim>\<open>Tile.h\<close>, with the four
  values the constructor of \<^verbatim>\<open>TiledWorldGenerator\<close> uses; and the colour of the user
  interface library, by its red, green and blue parts.\<close>

datatype TileType = ettFree | ettObstructed | ettUndesirable | ettDesirable

datatype ImColor = ImColor int int int

text \<open>The value of a \<^verbatim>\<open>float\<close> that a division by zero may have produced.\<close>

datatype fl = Finite real | PosInf | NegInf | NaN

fun fl_add :: "fl \<Rightarrow> fl \<Rightarrow> fl" where
  "fl_add (Finite a) (Finite b) = Finite (a + b)"
| "fl_add NaN _ = NaN"
| "fl_add _ NaN = NaN"
| "fl_add PosInf NegInf = NaN"
| "fl_add NegInf PosInf = NaN"
| "fl_add PosInf _ = PosInf"
| "fl_add _ PosInf = PosInf"
| "fl_add NegInf _ = NegInf"
| "fl_add _ NegInf = NegInf"

definition fl_div_int :: "int \<Rightarrow> int \<Rightarrow> fl" where
  "fl_div_int a b =
     (if b \<noteq> 0 then Finite (real_of_int a / real_of_int b)
      else if 0 < a then PosInf else if a < 0 then NegInf else NaN)"

fun fl_le :: "real \<Rightarrow> fl \<Rightarrow> bool" where
  "fl_le r (Finite t) = (r \<le> t)"
| "fl_le r PosInf = True"
| "fl_le r NegInf = False"
| "fl_le r NaN = False"

record AvailableTile =
  Frequency :: int
  Threshold :: "fl option"
  Name :: string
  Colour :: ImColor
  Type :: TileType
  FieldStrength :: real
  FieldRange :: real

text \<open>Modelled from the spec: the members of the absent \<^verbatim>\<open>Tile\<close> class that
  \<^verbatim>\<open>TiledWorldGenerator.cpp\<close> reads or writes.\<close>

record Tile =
  Type :: TileType
  Colour :: ImColor
  Location :: Vector2f
  FieldStrength :: real
  FieldRange :: real
  LocalFieldValue :: Vector2f

text \<open>Modelled from the spec: the constructor of the absent \<^verbatim>\<open>Tile\<close> class, called in
  \<^verbatim>\<open>GenerateWorld\<close> with type, colour, location, strength and range; the field starts
  in its zero state.\<close>

definition Tile_new :: "TileType \<Rightarrow> ImColor \<Rightarrow> Vector2f \<Rightarrow> real \<Rightarrow> real \<Rightarrow> Tile" where
  "Tile_new ty col loc str rng =
     \<lparr>Type = ty, Colour = col, Location = loc, FieldStrength = str, FieldRange = rng,
      LocalFieldValue = Vector2f_Zero\<rparr>"

text \<open>Modelled from the spec: \<^verbatim>\<open>Tile::CalculateFieldTo\<close> of the absent \<^verbatim>\<open>Tile\<close> class. The
  contribution is computed from the candidate's influence parameters (strength, range)
  and the displacement from the candidate to the target; the formula itself is the
  pluggable function \<open>falloff\<close>.\<close>

definition CalculateFieldTo ::
  "(real \<Rightarrow> real \<Rightarrow> Vector2f \<Rightarrow> Vector2f) \<Rightarrow> Tile \<Rightarrow> Tile \<Rightarrow> Vector2f" where
  "CalculateFieldTo falloff other target =
     falloff (Tile.FieldStrength other) (Tile.FieldRange other)
       (vsub (Location target) (Location other))"

text \<open>Modelled from the spec: the bounding box of an object in the index, its position
  extended by its range on both axes. It is the box \<^verbatim>\<open>Location - (FieldRange, FieldRange)\<close>
  to \<^verbatim>\<open>Location + (FieldRange, FieldRange)\<close> that lines 79-81 compute.\<close>

definition tile_box :: "Tile \<Rightarrow> AABBf" where
  "tile_box t =
     (let boxSize = \<lparr>X = Tile.FieldRange t, Y = Tile.FieldRange t\<rparr>
      in \<lparr>boxMin = vsub (Location t) boxSize, boxMax = vadd (Location t) boxSize\<rparr>)"

section \<open>The spatial index\<close>

text \<open>
  Modelled from the spec: the class \<^verbatim>\<open>Node\<close> (\<^verbatim>\<open>Node.h\<close> is not among the sources). The
  design comment in \<^verbatim>\<open>TiledWorldGenerator.cpp\<close> lists its members (bounding box, depth,
  parent pointer, children, contents) and its two operations; the specification gives
  their algorithms. A node is either a leaf holding tile pointers or an internal node
  with exactly four quadrant children, never both. A \<^verbatim>\<open>Tile*\<close> of the vector \<^verbatim>\<open>world\<close>
  is modelled as the index of the tile in \<^verbatim>\<open>world\<close>: every element of the vector comes
  from its own \<^verbatim>\<open>new Tile\<close> in \<^verbatim>\<open>GenerateWorld\<close>, and \<^verbatim>\<open>ClearWorld\<close> deletes the tiles
  and empties the vector together, so the pointers of \<^verbatim>\<open>world\<close> are pairwise distinct
  and pointer equality is equality of indices. The parent back-link is never followed;
  it is kept as the region of the parent (\<open>None\<close> for \<^verbatim>\<open>nullptr\<close>).
\<close>

datatype Node =
  Leaf (bounds: AABBf) (depth: nat) (parent: "AABBf option") (contents: "nat list")
| Internal (bounds: AABBf) (depth: nat) (parent: "AABBf option")
    (child1: Node) (child2: Node) (child3: Node) (child4: Node)

text \<open>Modelled from the spec: the configuration the index accepts (its constants are in
  the absent \<^verbatim>\<open>Node.h\<close>): the split threshold (object count per node), the minimum
  splittable box size and the maximum depth.\<close>

record IndexConfig =
  splitThreshold :: nat
  minSize :: real
  maxDepth :: nat

text \<open>Modelled from the spec: the absent constructor
  \<^verbatim>\<open>Node(boxMin, boxMax, parent, depth)\<close>, called at line 66: a leaf with empty contents.\<close>

definition Node_new :: "Vector2f \<Rightarrow> Vector2f \<Rightarrow> AABBf option \<Rightarrow> nat \<Rightarrow> Node" where
  "Node_new bmin bmax par d = Leaf \<lparr>boxMin = bmin, boxMax = bmax\<rparr> d par []"

text \<open>Modelled from the spec: the centre of a box, where the absent split cuts it.\<close>

definition box_mid :: "AABBf \<Rightarrow> Vector2f" where
  "box_mid b = \<lparr>X = (X (boxMin b) + X (boxMax b)) / 2, Y = (Y (boxMin b) + Y (boxMax b)) / 2\<rparr>"

text \<open>Modelled from the spec: the four equal quadrants into which the absent split cuts a
  box, in the order in which a query tries them.\<close>

definition quadrant1 :: "AABBf \<Rightarrow> AABBf" where
  "quadrant1 b = \<lparr>boxMin = boxMin b, boxMax = box_mid b\<rparr>"

definition quadrant2 :: "AABBf \<Rightarrow> AABBf" where
  "quadrant2 b = \<lparr>boxMin = \<lparr>X = X (box_mid b), Y = Y (boxMin b)\<rparr>,
                  boxMax = \<lparr>X = X (boxMax b), Y = Y (box_mid b)\<rparr>\<rparr>"

definition quadrant3 :: "AABBf \<Rightarrow> AABBf" where
  "quadrant3 b = \<lparr>boxMin = \<lparr>X = X (boxMin b), Y = Y (box_mid b)\<rparr>,
                  boxMax = \<lparr>X = X (box_mid b), Y = Y (boxMax b)\<rparr>\<rparr>"

definition quadrant4 :: "AABBf \<Rightarrow> AABBf" where
  "quadrant4 b = \<lparr>boxMin = box_mid b, boxMax = boxMax b\<rparr>"

text \<open>Modelled from the spec: "the bounding box is larger than a configurable minimum
  size", of the absent split condition, read as larger on both axes.\<close>

definition box_larger :: "AABBf \<Rightarrow> real \<Rightarrow> bool" where
  "box_larger b m \<longleftrightarrow> m < X (boxMax b) - X (boxMin b) \<and> m < Y (boxMax b) - Y (boxMin b)"

text \<open>
  Modelled from the spec: the absent \<^verbatim>\<open>Node::AddObject\<close>, as insertion below a node that
  may still split \<open>k\<close> more levels (\<open>k\<close> is \<open>maxDepth - depth\<close>, see
  \<open>Node_AddObject\<close>). An internal node hands the object to
  every child whose box intersects the object's box. A leaf appends it; when the
  content count exceeds the threshold, the box is larger than the minimum size and the
  depth is below the maximum, it creates the four children, re-inserts every object of
  its contents into them by the same rule, and becomes internal with no contents.
  \<open>ts\<close> is the vector \<^verbatim>\<open>world\<close>, through which a tile pointer is read.
\<close>

fun AddObject_at :: "IndexConfig \<Rightarrow> Tile list \<Rightarrow> nat \<Rightarrow> Node \<Rightarrow> nat \<Rightarrow> Node" where
  "AddObject_at cfg ts k (Internal b d par c1 c2 c3 c4) i =
     Internal b d par
       (if AABB_intersects (bounds c1) (tile_box (ts ! i))
        then AddObject_at cfg ts (k - 1) c1 i else c1)
       (if AABB_intersects (bounds c2) (tile_box (ts ! i))
        then AddObject_at cfg ts (k - 1) c2 i else c2)
       (if AABB_intersects (bounds c3) (tile_box (ts ! i))
        then AddObject_at cfg ts (k - 1) c3 i else c3)
       (if AABB_intersects (bounds c4) (tile_box (ts ! i))
        then AddObject_at cfg ts (k - 1) c4 i else c4)"
| "AddObject_at cfg ts k (Leaf b d par cs) i =
     (let cs' = cs @ [i] in
      if splitThreshold cfg < length cs' \<and> box_larger b (minSize cfg) \<and> 0 < k
      then
        (case fold (\<lambda>j (c1, c2, c3, c4).
                 (if AABB_intersects (bounds c1) (tile_box (ts ! j))
                  then AddObject_at cfg ts (k - 1) c1 j else c1,
                  if AABB_intersects (bounds c2) (tile_box (ts ! j))
                  then AddObject_at cfg ts (k - 1) c2 j else c2,
                  if AABB_intersects (bounds c3) (tile_box (ts ! j))
                  then AddObject_at cfg ts (k - 1) c3 j else c3,
                  if AABB_intersects (bounds c4) (tile_box (ts ! j))
                  then AddObject_at cfg ts (k - 1) c4 j else c4))
               cs'
               (Node_new (boxMin (quadrant1 b)) (boxMax (quadrant1 b)) (Some b) (d + 1),
                Node_new (boxMin (quadrant2 b)) (boxMax (quadrant2 b)) (Some b) (d + 1),
                Node_new (boxMin (quadrant3 b)) (boxMax (quadrant3 b)) (Some b) (d + 1),
                Node_new (boxMin (quadrant4 b)) (boxMax (quadrant4 b)) (Some b) (d + 1))
         of (c1, c2, c3, c4) \<Rightarrow> Internal b d par c1 c2 c3 c4)
      else Leaf b d par cs')"

text \<open>Modelled from the spec: the absent \<^verbatim>\<open>Node::AddObject\<close> as line 70 calls it. The
  levels left to split are the maximum depth less the node's depth.\<close>

definition Node_AddObject :: "IndexConfig \<Rightarrow> Tile list \<Rightarrow> Node \<Rightarrow> nat \<Rightarrow> Node" where
  "Node_AddObject cfg ts n i = AddObject_at cfg ts (maxDepth cfg - depth n) n i"

text \<open>
  Modelled from the spec: the absent \<^verbatim>\<open>Node::FindTiles\<close>. A leaf returns its contents; an
  internal node recurses into the first child
  whose box contains the point. A point that no child contains lies outside the node's
  box, where the specification leaves the behaviour undefined: the model returns
  \<open>None\<close>.
\<close>

fun Node_FindTiles :: "Node \<Rightarrow> Vector2f \<Rightarrow> nat list option" where
  "Node_FindTiles (Leaf b d par cs) p = Some cs"
| "Node_FindTiles (Internal b d par c1 c2 c3 c4) p =
     (if AABB_contains (bounds c1) p then Node_FindTiles c1 p
      else if AABB_contains (bounds c2) p then Node_FindTiles c2 p
      else if AABB_contains (bounds c3) p then Node_FindTiles c3 p
      else if AABB_contains (bounds c4) p then Node_FindTiles c4 p
      else None)"

section \<open>The generator\<close>

text \<open>
  What can go wrong in the functions below: a dereference of \<^verbatim>\<open>rootNode\<close> while it holds
  no node, a query at a point outside the root box, a read of a member that was never
  assigned, and the exception of \<^verbatim>\<open>std::vector::reserve\<close>.
\<close>

datatype error =
  InvalidRootDereference
| QueryOutsideRoot
| UninitialisedRead
| ReserveLengthError

text \<open>The calls that \<^verbatim>\<open>CalculateField\<close> makes on the index, in the order it makes them.\<close>

datatype IndexCall =
  CallNew AABBf "AABBf option" nat
| CallAddObject nat
| CallFindTiles Vector2f

text \<open>
  The class \<^verbatim>\<open>TiledWorldGenerator\<close>. \<open>rootNode\<close>, \<open>largestFieldStrength\<close> and the
  \<open>Threshold\<close> of a palette entry are not initialised by their constructors: \<open>None\<close>
  stands for the indeterminate value. \<open>indexCalls\<close> is a ghost field, absent from the
  class: \<^verbatim>\<open>CalculateField\<close> appends to it each call it makes on the index, so that claims
  on the order of the calls can be stated. The palette is held by value.
\<close>

record TiledWorldGenerator =
  Length :: int
  Width :: int
  TilePalette :: "AvailableTile list"
  rootNode :: "Node option"
  world :: "Tile list"
  largestFieldStrength :: "real option"
  ShowField :: bool
  indexCalls :: "IndexCall list"

definition AvailableTile_new ::
  "int \<Rightarrow> string \<Rightarrow> ImColor \<Rightarrow> TileType \<Rightarrow> real \<Rightarrow> real \<Rightarrow> AvailableTile" where
  "AvailableTile_new f n c t str rng =
     \<lparr>Frequency = f, Threshold = None, Name = n, Colour = c, Type = t,
      FieldStrength = str, FieldRange = rng\<rparr>"

definition TiledWorldGenerator_new :: TiledWorldGenerator where
  "TiledWorldGenerator_new =
     \<lparr>Length = 120, Width = 120,
      TilePalette =
        [AvailableTile_new 85 ''Free'' (ImColor 121 255 116) ettFree 0 0,
         AvailableTile_new 10 ''Obstructed'' (ImColor 81 0 0) ettObstructed 4 5,
         AvailableTile_new 4 ''Undesirable'' (ImColor 255 127 39) ettUndesirable 3 10,
         AvailableTile_new 1 ''Desirable'' (ImColor 0 81 0) ettDesirable (- 10) 60],
      rootNode = None, world = [], largestFieldStrength = None, ShowField = False,
      indexCalls = []\<rparr>"

subsection \<open>Generation\<close>

text \<open>\<^verbatim>\<open>NormaliseProbabilities\<close> (lines 159-175): the sum of the frequencies, then the
  running threshold of every palette entry. The sum is taken on the integers and the
  thresholds are exact quotients: a sum that overflows \<^verbatim>\<open>int\<close> and the rounding of the
  \<^verbatim>\<open>float\<close> accumulation are outside the model.\<close>

fun set_thresholds :: "int \<Rightarrow> fl \<Rightarrow> AvailableTile list \<Rightarrow> AvailableTile list" where
  "set_thresholds frequencySum currentThreshold [] = []"
| "set_thresholds frequencySum currentThreshold (t # ts) =
     (let currentThreshold' = fl_add currentThreshold (fl_div_int (Frequency t) frequencySum)
      in t\<lparr>Threshold := Some currentThreshold'\<rparr>
           # set_thresholds frequencySum currentThreshold' ts)"

definition NormaliseProbabilities :: "TiledWorldGenerator \<Rightarrow> TiledWorldGenerator" where
  "NormaliseProbabilities s =
     (let frequencySum = fold (\<lambda>t acc. acc + Frequency t) (TilePalette s) 0
      in s\<lparr>TilePalette := set_thresholds frequencySum (Finite 0) (TilePalette s)\<rparr>)"

text \<open>\<^verbatim>\<open>ClearWorld\<close> (lines 177-185) deletes the tiles and empties the vector.\<close>

definition ClearWorld :: "TiledWorldGenerator \<Rightarrow> TiledWorldGenerator" where
  "ClearWorld s = s\<lparr>world := []\<rparr>"

text \<open>The first palette entry whose threshold the roll does not exceed (lines 205-213).\<close>

fun select_tile :: "real \<Rightarrow> AvailableTile list \<Rightarrow> error + AvailableTile option" where
  "select_tile roll [] = Inr None"
| "select_tile roll (t # ts) =
     (case Threshold t of
        None \<Rightarrow> Inl UninitialisedRead
      | Some th \<Rightarrow> if fl_le roll th then Inr (Some t) else select_tile roll ts)"

text \<open>
  One cell of the grid (lines 201-220). \<open>rand\<close> is the sequence of values that the C
  function \<^verbatim>\<open>rand()\<close> returns and \<open>n\<close> the number of calls made so far.
\<close>

definition gen_cell ::
  "(nat \<Rightarrow> nat) \<Rightarrow> int \<Rightarrow> int \<Rightarrow> TiledWorldGenerator \<times> nat
   \<Rightarrow> error + TiledWorldGenerator \<times> nat" where
  "gen_cell rand lengthIndex widthIndex st =
     (case st of (s, n) \<Rightarrow>
        let roll = real (rand n mod 101) / 100;
            place = (\<lambda>r. s\<lparr>world := world s @
                      [Tile_new (AvailableTile.Type r) (AvailableTile.Colour r)
                         \<lparr>X = real_of_int lengthIndex, Y = real_of_int widthIndex\<rparr>
                         (AvailableTile.FieldStrength r) (AvailableTile.FieldRange r)]\<rparr>)
        in case select_tile roll (TilePalette s) of
             Inl e \<Rightarrow> Inl e
           | Inr (Some r) \<Rightarrow> Inr (place r, n + 1)
           | Inr None \<Rightarrow>
               Inr (place (TilePalette s ! (rand (n + 1) mod length (TilePalette s))), n + 2))"

text \<open>The inner and the outer loop of lines 197-222.\<close>

fun gen_row ::
  "(nat \<Rightarrow> nat) \<Rightarrow> int \<Rightarrow> int list \<Rightarrow> TiledWorldGenerator \<times> nat
   \<Rightarrow> error + TiledWorldGenerator \<times> nat" where
  "gen_row rand lengthIndex [] st = Inr st"
| "gen_row rand lengthIndex (widthIndex # ws) st =
     (case gen_cell rand lengthIndex widthIndex st of
        Inl e \<Rightarrow> Inl e
      | Inr st' \<Rightarrow> gen_row rand lengthIndex ws st')"

fun gen_rows ::
  "(nat \<Rightarrow> nat) \<Rightarrow> int list \<Rightarrow> TiledWorldGenerator \<times> nat
   \<Rightarrow> error + TiledWorldGenerator \<times> nat" where
  "gen_rows rand [] st = Inr st"
| "gen_rows rand (lengthIndex # ls) st =
     (case gen_row rand lengthIndex [0 .. Width (fst st) - 1] st of
        Inl e \<Rightarrow> Inl e
      | Inr st' \<Rightarrow> gen_rows rand ls st')"

text \<open>
  \<^verbatim>\<open>GenerateWorld\<close>. \<^verbatim>\<open>world.reserve(Length * Width)\<close> throws \<^verbatim>\<open>std::length_error\<close> when
  the product is negative (it is converted to an unsigned size); \<^verbatim>\<open>int\<close> arithmetic is
  modelled on the integers, so a product that overflows \<^verbatim>\<open>int\<close> is outside the model.
\<close>

definition GenerateWorld ::
  "(nat \<Rightarrow> nat) \<Rightarrow> TiledWorldGenerator \<times> nat \<Rightarrow> error + TiledWorldGenerator \<times> nat" where
  "GenerateWorld rand st =
     (if TilePalette (fst st) = [] then Inr st
      else if Length (fst st) * Width (fst st) < 0 then Inl ReserveLengthError
      else gen_rows rand [0 .. Length (fst st) - 1] st)"

text \<open>\<^verbatim>\<open>Generate\<close> (lines 11-17).\<close>

definition Generate ::
  "(nat \<Rightarrow> nat) \<Rightarrow> TiledWorldGenerator \<times> nat \<Rightarrow> error + TiledWorldGenerator \<times> nat" where
  "Generate rand st =
     GenerateWorld rand (ClearWorld (NormaliseProbabilities (fst st)), snd st)"

subsection \<open>The field pass\<close>

text \<open>The loop of lines 68-71.\<close>

fun build_loop ::
  "IndexConfig \<Rightarrow> nat list \<Rightarrow> TiledWorldGenerator \<Rightarrow> error + TiledWorldGenerator" where
  "build_loop cfg [] s = Inr s"
| "build_loop cfg (tile # rest) s =
     (case rootNode s of
        None \<Rightarrow> Inl InvalidRootDereference
      | Some node \<Rightarrow>
          build_loop cfg rest
            (s\<lparr>rootNode := Some (Node_AddObject cfg (world s) node tile),
               indexCalls := indexCalls s @ [CallAddObject tile]\<rparr>))"

text \<open>The loop of lines 92-99 over the candidates, for the tile \<open>cur\<close>.\<close>

fun accumulate ::
  "(real \<Rightarrow> real \<Rightarrow> Vector2f \<Rightarrow> Vector2f) \<Rightarrow> nat \<Rightarrow> nat list \<Rightarrow> Tile list \<Rightarrow> Tile list" where
  "accumulate falloff cur [] w = w"
| "accumulate falloff cur (other # rest) w =
     (if other = cur then accumulate falloff cur rest w
      else accumulate falloff cur rest
             (w[cur := (w ! cur)\<lparr>LocalFieldValue :=
                  vadd (LocalFieldValue (w ! cur))
                    (CalculateFieldTo falloff (w ! other) (w ! cur))\<rparr>]))"

text \<open>The loop of lines 74-105. The box of lines 79-81 is computed and never used.\<close>

fun field_loop ::
  "(real \<Rightarrow> real \<Rightarrow> Vector2f \<Rightarrow> Vector2f) \<Rightarrow> nat list \<Rightarrow> TiledWorldGenerator
   \<Rightarrow> error + TiledWorldGenerator" where
  "field_loop falloff [] s = Inr s"
| "field_loop falloff (cur # rest) s =
     (let s1 = s\<lparr>world := (world s)[cur := (world s ! cur)\<lparr>LocalFieldValue := Vector2f_Zero\<rparr>]\<rparr>
      in if Tile.Type (world s1 ! cur) = ettObstructed then field_loop falloff rest s1
         else
           (case rootNode s1 of
              None \<Rightarrow> Inl InvalidRootDereference
            | Some node \<Rightarrow>
                (case Node_FindTiles node (Location (world s1 ! cur)) of
                   None \<Rightarrow> Inl QueryOutsideRoot
                 | Some candidates \<Rightarrow>
                     (let s2 = s1\<lparr>world := accumulate falloff cur candidates (world s1),
                                  indexCalls := indexCalls s1 @
                                    [CallFindTiles (Location (world s1 ! cur))]\<rparr>;
                          fieldStrength = Magnitude (LocalFieldValue (world s2 ! cur))
                      in case largestFieldStrength s2 of
                           None \<Rightarrow> Inl UninitialisedRead
                         | Some largest \<Rightarrow>
                             field_loop falloff rest
                               (if largest < fieldStrength
                                then s2\<lparr>largestFieldStrength := Some fieldStrength\<rparr>
                                else s2)))))"

text \<open>\<^verbatim>\<open>CalculateField\<close> (lines 59-106). The node that \<^verbatim>\<open>rootNode\<close> held before is
  neither read nor freed.\<close>

definition worldBounds :: "TiledWorldGenerator \<Rightarrow> AABBf" where
  "worldBounds s =
     \<lparr>boxMin = Vector2f_Zero,
      boxMax = \<lparr>X = real_of_int (Length s), Y = real_of_int (Width s)\<rparr>\<rparr>"

definition CalculateField ::
  "IndexConfig \<Rightarrow> (real \<Rightarrow> real \<Rightarrow> Vector2f \<Rightarrow> Vector2f) \<Rightarrow> TiledWorldGenerator
   \<Rightarrow> error + TiledWorldGenerator" where
  "CalculateField cfg falloff s =
     (let s0 = s\<lparr>largestFieldStrength := Some 0\<rparr>;
          s1 = s0\<lparr>rootNode :=
                    Some (Node_new (boxMin (worldBounds s0)) (boxMax (worldBounds s0)) None 0),
                  indexCalls := indexCalls s0 @ [CallNew (worldBounds s0) None 0]\<rparr>
      in case build_loop cfg [0 ..< length (world s1)] s1 of
           Inl e \<Rightarrow> Inl e
         | Inr s2 \<Rightarrow> field_loop falloff [0 ..< length (world s2)] s2)"

text \<open>\<^verbatim>\<open>ReturnSelectedNode\<close> (lines 227-230).\<close>

definition ReturnSelectedNode :: "TiledWorldGenerator \<Rightarrow> Vector2f \<Rightarrow> error + nat list" where
  "ReturnSelectedNode s target =
     (case rootNode s of
        None \<Rightarrow> Inl InvalidRootDereference
      | Some node \<Rightarrow>
          (case Node_FindTiles node target of
             None \<Rightarrow> Inl QueryOutsideRoot
           | Some tiles \<Rightarrow> Inr tiles))"

section \<open>Notions used in the statements and proofs\<close>

subsection \<open>Of the index\<close>

text \<open>The tile pointers held anywhere in a tree.\<close>

fun tiles_of :: "Node \<Rightarrow> nat set" where
  "tiles_of (Leaf b d par cs) = set cs"
| "tiles_of (Internal b d par c1 c2 c3 c4) =
     tiles_of c1 \<union> tiles_of c2 \<union> tiles_of c3 \<union> tiles_of c4"


text \<open>The children of every internal node are the four quadrants of its box.\<close>

fun quad_wf :: "Node \<Rightarrow> bool" where
  "quad_wf (Leaf b d par cs) \<longleftrightarrow> True"
| "quad_wf (Internal b d par c1 c2 c3 c4) \<longleftrightarrow>
     bounds c1 = quadrant1 b \<and> bounds c2 = quadrant2 b \<and>
     bounds c3 = quadrant3 b \<and> bounds c4 = quadrant4 b \<and>
     quad_wf c1 \<and> quad_wf c2 \<and> quad_wf c3 \<and> quad_wf c4"

text \<open>What insertion does with one child: insert when the boxes intersect, else leave it.\<close>

definition route :: "IndexConfig \<Rightarrow> Tile list \<Rightarrow> nat \<Rightarrow> nat \<Rightarrow> Node \<Rightarrow> Node" where
  "route cfg ts k j c =
     (if AABB_intersects (bounds c) (tile_box (ts ! j)) then AddObject_at cfg ts k c j else c)"

text \<open>The split condition of a leaf with the contents \<open>cs\<close>.\<close>

definition should_split :: "IndexConfig \<Rightarrow> AABBf \<Rightarrow> nat \<Rightarrow> nat list \<Rightarrow> bool" where
  "should_split cfg b k cs \<longleftrightarrow>
     splitThreshold cfg < length cs \<and> box_larger b (minSize cfg) \<and> 0 < k"

text \<open>The insertion loop of lines 68-71, on the tree alone.\<close>

definition build_tree :: "IndexConfig \<Rightarrow> Tile list \<Rightarrow> nat list \<Rightarrow> Node \<Rightarrow> Node" where
  "build_tree cfg ts js n = fold (\<lambda>j r. Node_AddObject cfg ts r j) js n"

subsection \<open>Of the field pass\<close>

text \<open>A tile with its field set to zero: two tiles agree on everything but the field
  when their images agree.\<close>

definition reset_field :: "Tile \<Rightarrow> Tile" where
  "reset_field t = t\<lparr>LocalFieldValue := Vector2f_Zero\<rparr>"

text \<open>The members of a tile that a pass reads and never writes.\<close>

definition tile_data :: "Tile \<Rightarrow> TileType \<times> ImColor \<times> Vector2f \<times> real \<times> real" where
  "tile_data t =
     (Tile.Type t, Tile.Colour t, Location t, Tile.FieldStrength t, Tile.FieldRange t)"

text \<open>The sum that the candidate loop of lines 92-99 accumulates for the tile \<open>cur\<close>:
  over the candidates other than \<open>cur\<close>, in candidate order, starting from zero.\<close>

definition contribution_sum ::
  "(real \<Rightarrow> real \<Rightarrow> Vector2f \<Rightarrow> Vector2f) \<Rightarrow> Tile list \<Rightarrow> nat \<Rightarrow> nat list \<Rightarrow> Vector2f" where
  "contribution_sum falloff w cur candidates =
     fold (\<lambda>other acc. vadd acc (CalculateFieldTo falloff (w ! other) (w ! cur)))
       (filter (\<lambda>other. other \<noteq> cur) candidates) Vector2f_Zero"

text \<open>The sum as C1 words it: over the candidates that are neither the tile itself nor an
  obstacle.\<close>

definition obstacle_free_sum ::
  "(real \<Rightarrow> real \<Rightarrow> Vector2f \<Rightarrow> Vector2f) \<Rightarrow> Tile list \<Rightarrow> nat \<Rightarrow> nat list \<Rightarrow> Vector2f" where
  "obstacle_free_sum falloff w cur candidates =
     fold (\<lambda>other acc. vadd acc (CalculateFieldTo falloff (w ! other) (w ! cur)))
       (filter (\<lambda>other. other \<noteq> cur \<and> Tile.Type (w ! other) \<noteq> ettObstructed) candidates)
       Vector2f_Zero"

text \<open>The field that a pass leaves on the tile \<open>i\<close>, given the index it built.\<close>

definition final_field ::
  "(real \<Rightarrow> real \<Rightarrow> Vector2f \<Rightarrow> Vector2f) \<Rightarrow> Node \<Rightarrow> Tile list \<Rightarrow> nat \<Rightarrow> Vector2f" where
  "final_field falloff node w i =
     (if Tile.Type (w ! i) = ettObstructed then Vector2f_Zero
      else case Node_FindTiles node (Location (w ! i)) of
             None \<Rightarrow> Vector2f_Zero
           | Some candidates \<Rightarrow> contribution_sum falloff w i candidates)"

text \<open>One iteration of the loop of lines 74-105, with its inner loop summed up.\<close>

definition field_step ::
  "(real \<Rightarrow> real \<Rightarrow> Vector2f \<Rightarrow> Vector2f) \<Rightarrow> nat \<Rightarrow> TiledWorldGenerator
   \<Rightarrow> error + TiledWorldGenerator" where
  "field_step falloff cur s =
     (if Tile.Type (world s ! cur) = ettObstructed
      then Inr (s\<lparr>world := (world s)[cur := reset_field (world s ! cur)]\<rparr>)
      else case rootNode s of
             None \<Rightarrow> Inl InvalidRootDereference
           | Some node \<Rightarrow>
               (case Node_FindTiles node (Location (world s ! cur)) of
                  None \<Rightarrow> Inl QueryOutsideRoot
                | Some candidates \<Rightarrow>
                    (case largestFieldStrength s of
                       None \<Rightarrow> Inl UninitialisedRead
                     | Some largest \<Rightarrow>
                         Inr (s\<lparr>world := (world s)[cur := (world s ! cur)
                                  \<lparr>LocalFieldValue :=
                                     contribution_sum falloff (world s) cur candidates\<rparr>],
                                indexCalls := indexCalls s @
                                  [CallFindTiles (Location (world s ! cur))],
                                largestFieldStrength :=
                                  Some (max largest (Magnitude
                                    (contribution_sum falloff (world s) cur candidates)))\<rparr>))))"

text \<open>The field magnitudes of the tiles of \<open>A\<close> that are not obstacles.\<close>

definition magnitudes ::
  "(real \<Rightarrow> real \<Rightarrow> Vector2f \<Rightarrow> Vector2f) \<Rightarrow> Node \<Rightarrow> Tile list \<Rightarrow> nat set \<Rightarrow> real set" where
  "magnitudes falloff r w A =
     (\<lambda>i. Magnitude (final_field falloff r w i)) ` {i \<in> A. Tile.Type (w ! i) \<noteq> ettObstructed}"

text \<open>The tiles a pass computes a field for: those that are not obstacles, in world order.\<close>

definition processed :: "TiledWorldGenerator \<Rightarrow> nat list" where
  "processed s =
     filter (\<lambda>i. Tile.Type (world s ! i) \<noteq> ettObstructed) [0 ..< length (world s)]"

text \<open>The index of a pass: the fresh root with every tile of \<^verbatim>\<open>world\<close> inserted.\<close>

definition pass_root :: "IndexConfig \<Rightarrow> TiledWorldGenerator \<Rightarrow> Node" where
  "pass_root cfg s =
     build_tree cfg (world s) [0 ..< length (world s)]
       (Node_new (boxMin (worldBounds s)) (boxMax (worldBounds s)) None 0)"

text \<open>The generator after lines 61-71 of \<^verbatim>\<open>CalculateField\<close>.\<close>

definition pass_start :: "IndexConfig \<Rightarrow> TiledWorldGenerator \<Rightarrow> TiledWorldGenerator" where
  "pass_start cfg s =
     s\<lparr>largestFieldStrength := Some 0, rootNode := Some (pass_root cfg s),
       indexCalls := indexCalls s @ CallNew (worldBounds s) None 0
                       # map CallAddObject [0 ..< length (world s)]\<rparr>"

text \<open>The calls on the index made between two states of the generator.\<close>

definition pass_calls :: "TiledWorldGenerator \<Rightarrow> TiledWorldGenerator \<Rightarrow> IndexCall list" where
  "pass_calls s s' = drop (length (indexCalls s)) (indexCalls s')"

text \<open>The output of a pass: the tiles' fields in world order and the largest field strength.\<close>

definition pass_output ::
  "error + TiledWorldGenerator \<Rightarrow> error + Vector2f list \<times> real option" where
  "pass_output r =
     (case r of
        Inl e \<Rightarrow> Inl e
      | Inr s \<Rightarrow> Inr (map LocalFieldValue (world s), largestFieldStrength s))"

text \<open>The field of the tile \<open>i\<close> after a pass, \<open>None\<close> when the pass failed.\<close>

definition field_after :: "error + TiledWorldGenerator \<Rightarrow> nat \<Rightarrow> Vector2f option" where
  "field_after r i =
     (case r of Inl e \<Rightarrow> None | Inr s \<Rightarrow> Some (LocalFieldValue (world s ! i)))"

text \<open>The candidates at \<open>p\<close> in the index a pass left, \<open>None\<close> on a failure.\<close>

definition candidates_after :: "error + TiledWorldGenerator \<Rightarrow> Vector2f \<Rightarrow> nat list option" where
  "candidates_after r p =
     (case r of
        Inl e \<Rightarrow> None
      | Inr s \<Rightarrow> (case ReturnSelectedNode s p of Inl e \<Rightarrow> None | Inr cs \<Rightarrow> Some cs))"

text \<open>A tile sits on a cell of the grid: \<open>lengthIndex\<close> runs over \<open>0 .. Length - 1\<close> and
  \<open>widthIndex\<close> over \<open>0 .. Width - 1\<close>, as the loops of lines 197-199 do.\<close>

definition on_grid :: "TiledWorldGenerator \<Rightarrow> Tile \<Rightarrow> bool" where
  "on_grid s t \<longleftrightarrow>
     (\<exists>lengthIndex \<in> set [0 .. Length s - 1]. \<exists>widthIndex \<in> set [0 .. Width s - 1].
        Location t = \<lparr>X = real_of_int lengthIndex, Y = real_of_int widthIndex\<rparr>)"

subsection \<open>Example inputs\<close>

text \<open>
  The inputs of the witnesses and counterexamples: two index configurations, two falloff
  functions, two sequences for \<^verbatim>\<open>rand()\<close>, and small generators built on the
  constructor's state.
\<close>

definition example_config :: IndexConfig where
  "example_config = \<lparr>splitThreshold = 1, minSize = 1 / 4, maxDepth = 4\<rparr>"

definition coarse_config :: IndexConfig where
  "coarse_config = \<lparr>splitThreshold = 4, minSize = 1, maxDepth = 8\<rparr>"

definition example_falloff :: "real \<Rightarrow> real \<Rightarrow> Vector2f \<Rightarrow> Vector2f" where
  "example_falloff strength rng d = \<lparr>X = strength * X d, Y = strength * Y d\<rparr>"

definition constant_falloff :: "real \<Rightarrow> real \<Rightarrow> Vector2f \<Rightarrow> Vector2f" where
  "constant_falloff strength rng d = \<lparr>X = strength, Y = rng\<rparr>"

definition example_rand :: "nat \<Rightarrow> nat" where
  "example_rand n = 30 * n"

definition obstacle_pair :: TiledWorldGenerator where
  "obstacle_pair =
     TiledWorldGenerator_new\<lparr>Length := 2, Width := 1,
       world := [Tile_new ettFree (ImColor 121 255 116) \<lparr>X = 0, Y = 0\<rparr> 0 0,
                 Tile_new ettObstructed (ImColor 81 0 0) \<lparr>X = 1, Y = 0\<rparr> 4 5]\<rparr>"

definition stale_obstacle :: TiledWorldGenerator where
  "stale_obstacle =
     TiledWorldGenerator_new\<lparr>Length := 1, Width := 1,
       world := [(Tile_new ettObstructed (ImColor 81 0 0) \<lparr>X = 0, Y = 0\<rparr> 4 5)
                   \<lparr>LocalFieldValue := \<lparr>X = 1, Y = 1\<rparr>\<rparr>]\<rparr>"

definition twin_tiles :: TiledWorldGenerator where
  "twin_tiles =
     TiledWorldGenerator_new\<lparr>Length := 1, Width := 1,
       world := [Tile_new ettUndesirable (ImColor 255 127 39) \<lparr>X = 0, Y = 0\<rparr> 3 10,
                 Tile_new ettUndesirable (ImColor 255 127 39) \<lparr>X = 0, Y = 0\<rparr> 3 10]\<rparr>"

definition lone_tile :: TiledWorldGenerator where
  "lone_tile =
     TiledWorldGenerator_new\<lparr>Length := 1, Width := 1,
       world := [Tile_new ettDesirable (ImColor 0 81 0) \<lparr>X = 0, Y = 0\<rparr> (- 10) 60]\<rparr>"

definition empty_world :: TiledWorldGenerator where
  "empty_world = TiledWorldGenerator_new\<lparr>Length := 3, Width := 2\<rparr>"

definition small_generator :: TiledWorldGenerator where
  "small_generator = TiledWorldGenerator_new\<lparr>Length := 2, Width := 2\<rparr>"

definition small_world :: TiledWorldGenerator where
  "small_world =
     small_generator\<lparr>
       TilePalette := set_thresholds 100 (Finite 0) (TilePalette small_generator),
       world := [Tile_new ettFree (ImColor 121 255 116) \<lparr>X = 0, Y = 0\<rparr> 0 0,
                 Tile_new ettFree (ImColor 121 255 116) \<lparr>X = 0, Y = 1\<rparr> 0 0,
                 Tile_new ettFree (ImColor 121 255 116) \<lparr>X = 1, Y = 0\<rparr> 0 0,
                 Tile_new ettObstructed (ImColor 81 0 0) \<lparr>X = 1, Y = 1\<rparr> 4 5]\<rparr>"




section \<open>The index: insertion and query\<close>

lemma bounds_AddObject_at [simp]: "bounds (AddObject_at cfg ts k n i) = bounds n"
  by (cases n) (auto simp: Let_def split: prod.splits)

lemma depth_AddObject_at [simp]: "depth (AddObject_at cfg ts k n i) = depth n"
  by (cases n) (auto simp: Let_def split: prod.splits)

lemma bounds_route [simp]: "bounds (route cfg ts k j c) = bounds c"
  by (simp add: route_def)

lemma bounds_fold_route [simp]: "bounds (fold (route cfg ts k) js c) = bounds c"
  by (induction js arbitrary: c) simp_all

lemma fold_route4:
  "fold (\<lambda>j (c1, c2, c3, c4).
          (if AABB_intersects (bounds c1) (tile_box (ts ! j))
           then AddObject_at cfg ts k c1 j else c1,
           if AABB_intersects (bounds c2) (tile_box (ts ! j))
           then AddObject_at cfg ts k c2 j else c2,
           if AABB_intersects (bounds c3) (tile_box (ts ! j))
           then AddObject_at cfg ts k c3 j else c3,
           if AABB_intersects (bounds c4) (tile_box (ts ! j))
           then AddObject_at cfg ts k c4 j else c4)) js (a1, a2, a3, a4) =
   (fold (route cfg ts k) js a1, fold (route cfg ts k) js a2,
    fold (route cfg ts k) js a3, fold (route cfg ts k) js a4)"
  by (induction js arbitrary: a1 a2 a3 a4) (simp_all add: route_def)

lemma AddObject_at_Internal:
  "AddObject_at cfg ts k (Internal b d par c1 c2 c3 c4) i =
     Internal b d par (route cfg ts (k - 1) i c1) (route cfg ts (k - 1) i c2)
       (route cfg ts (k - 1) i c3) (route cfg ts (k - 1) i c4)"
  by (simp add: route_def)

lemma AddObject_at_Leaf:
  "AddObject_at cfg ts k (Leaf b d par cs) i =
     (if should_split cfg b k (cs @ [i])
      then Internal b d par
             (fold (route cfg ts (k - 1)) (cs @ [i])
                (Node_new (boxMin (quadrant1 b)) (boxMax (quadrant1 b)) (Some b) (d + 1)))
             (fold (route cfg ts (k - 1)) (cs @ [i])
                (Node_new (boxMin (quadrant2 b)) (boxMax (quadrant2 b)) (Some b) (d + 1)))
             (fold (route cfg ts (k - 1)) (cs @ [i])
                (Node_new (boxMin (quadrant3 b)) (boxMax (quadrant3 b)) (Some b) (d + 1)))
             (fold (route cfg ts (k - 1)) (cs @ [i])
                (Node_new (boxMin (quadrant4 b)) (boxMax (quadrant4 b)) (Some b) (d + 1)))
      else Leaf b d par (cs @ [i]))"
  unfolding AddObject_at.simps Let_def fold_route4 should_split_def by simp

lemma AddObject_at_cases [case_names Internal Leaf]:
  fixes cfg :: IndexConfig and ts :: "Tile list" and P :: "nat \<Rightarrow> Node \<Rightarrow> nat \<Rightarrow> bool"
  assumes "\<And>k b d par c1 c2 c3 c4 i.
             (\<And>c. c \<in> {c1, c2, c3, c4} \<Longrightarrow> AABB_intersects (bounds c) (tile_box (ts ! i))
                \<Longrightarrow> P (k - 1) c i)
             \<Longrightarrow> P k (Internal b d par c1 c2 c3 c4) i"
      and "\<And>k b d par cs i.
             (\<And>c j. j \<in> set (cs @ [i]) \<Longrightarrow> AABB_intersects (bounds c) (tile_box (ts ! j))
                \<Longrightarrow> should_split cfg b k (cs @ [i])
                \<Longrightarrow> P (k - 1) c j)
             \<Longrightarrow> P k (Leaf b d par cs) i"
  shows "P k n i"
proof -
  have "ts' = ts \<longrightarrow> cfg' = cfg \<longrightarrow> P k n i" for ts' cfg'
  proof (induction cfg' ts' k n i rule: AddObject_at.induct)
    case (1 cfg' ts' k b d par c1 c2 c3 c4 i)
    show ?case
    proof (intro impI)
      assume e: "ts' = ts" "cfg' = cfg"
      show "P k (Internal b d par c1 c2 c3 c4) i"
      proof (rule assms(1))
        fix c assume "c \<in> {c1, c2, c3, c4}" "AABB_intersects (bounds c) (tile_box (ts ! i))"
        then show "P (k - 1) c i" using 1 e by auto
      qed
    qed
  next
    case (2 cfg' ts' k b d par cs i)
    show ?case
    proof (intro impI)
      assume e: "ts' = ts" "cfg' = cfg"
      show "P k (Leaf b d par cs) i"
      proof (rule assms(2))
        fix c j assume "j \<in> set (cs @ [i])" "AABB_intersects (bounds c) (tile_box (ts ! j))"
          "should_split cfg b k (cs @ [i])"
        then show "P (k - 1) c j" using 2(1)[OF refl, of j c] e unfolding should_split_def by blast
      qed
    qed
  qed
  then show ?thesis by simp
qed

lemmas [simp del] = AddObject_at.simps

lemma Node_new_simps [simp]:
  "bounds (Node_new bmin bmax par d) = \<lparr>boxMin = bmin, boxMax = bmax\<rparr>"
  "depth (Node_new bmin bmax par d) = d"
  "quad_wf (Node_new bmin bmax par d)"
  "tiles_of (Node_new bmin bmax par d) = {}"
  "Node_FindTiles (Node_new bmin bmax par d) p = Some []"
  by (simp_all add: Node_new_def)

subsection \<open>Shape\<close>

lemma fold_route_invariant:
  assumes "Q c"
      and "\<And>c j. j \<in> set js \<Longrightarrow> AABB_intersects (bounds c) (tile_box (ts ! j)) \<Longrightarrow> Q c
             \<Longrightarrow> Q (AddObject_at cfg ts k c j)"
  shows "Q (fold (route cfg ts k) js c)"
  using assms
proof (induction js arbitrary: c)
  case Nil
  then show ?case by simp
next
  case (Cons j js)
  have "Q (route cfg ts k j c)"
    using Cons.prems by (simp add: route_def)
  then show ?case
    using Cons.IH Cons.prems(2) by simp
qed

lemma quad_wf_AddObject_at: "quad_wf n \<Longrightarrow> quad_wf (AddObject_at cfg ts k n i)"
proof (induction k n i rule: AddObject_at_cases [where cfg = cfg and ts = ts])
  case (Internal k b d par c1 c2 c3 c4 i)
  then show ?case
    by (simp add: AddObject_at_Internal route_def)
next
  case (Leaf k b d par cs i)
  show ?case
  proof (cases "should_split cfg b k (cs @ [i])")
    case True
    have "quad_wf (fold (route cfg ts (k - 1)) (cs @ [i]) (Node_new bmin bmax par' d'))"
      for bmin bmax par' d'
      by (rule fold_route_invariant) (use Leaf True in auto)
    then show ?thesis
      using True by (simp add: AddObject_at_Leaf del: fold_append)
  next
    case False
    then show ?thesis by (simp add: AddObject_at_Leaf)
  qed
qed

subsection \<open>Contents\<close>

lemma tiles_of_fold_route:
  assumes "\<And>c j. j \<in> set js \<Longrightarrow> AABB_intersects (bounds c) (tile_box (ts ! j))
             \<Longrightarrow> tiles_of (AddObject_at cfg ts k c j) \<subseteq> insert j (tiles_of c)"
  shows "tiles_of (fold (route cfg ts k) js c) \<subseteq> set js \<union> tiles_of c"
  using assms
proof (induction js arbitrary: c)
  case Nil
  then show ?case by simp
next
  case (Cons j js)
  have 1: "tiles_of (route cfg ts k j c) \<subseteq> insert j (tiles_of c)"
    using Cons.prems [of j c] by (auto simp: route_def)
  have "tiles_of (fold (route cfg ts k) js (route cfg ts k j c))
          \<subseteq> set js \<union> tiles_of (route cfg ts k j c)"
    by (rule Cons.IH) (use Cons.prems in auto)
  with 1 show ?case by auto
qed

lemma tiles_of_AddObject_at: "tiles_of (AddObject_at cfg ts k n i) \<subseteq> insert i (tiles_of n)"
proof (induction k n i rule: AddObject_at_cases [where cfg = cfg and ts = ts])
  case (Internal k b d par c1 c2 c3 c4 i)
  have "tiles_of (route cfg ts (k - 1) i c) \<subseteq> insert i (tiles_of c)"
    if "c \<in> {c1, c2, c3, c4}" for c
    using Internal [OF that] by (auto simp: route_def)
  from this [of c1] this [of c2] this [of c3] this [of c4] show ?case
    by (simp add: AddObject_at_Internal) blast
next
  case (Leaf k b d par cs i)
  have "tiles_of (fold (route cfg ts (k - 1)) (cs @ [i]) (Node_new bmin bmax par' d'))
          \<subseteq> set (cs @ [i])"
    if "should_split cfg b k (cs @ [i])"
    for bmin bmax par' d'
    using tiles_of_fold_route [of "cs @ [i]" ts cfg "k - 1" "Node_new bmin bmax par' d'"]
      Leaf that by simp
  then show ?case
    by (auto simp add: AddObject_at_Leaf simp del: fold_append)
qed

lemma Node_FindTiles_subset: "Node_FindTiles n p = Some cs \<Longrightarrow> set cs \<subseteq> tiles_of n"
  by (induction n p rule: Node_FindTiles.induct) (auto split: if_splits)

subsection \<open>Every inserted tile is held\<close>



subsection \<open>The index reads only the boxes of the tiles it holds\<close>

lemma fold_route_cong:
  assumes eq: "\<And>c j. j \<in> set js \<Longrightarrow> tiles_of c \<subseteq> A
             \<Longrightarrow> AABB_intersects (bounds c) (tile_box (ts ! j))
             \<Longrightarrow> AddObject_at cfg ts k c j = AddObject_at cfg ts' k c j"
      and boxes: "\<And>j. j \<in> A \<Longrightarrow> tile_box (ts ! j) = tile_box (ts' ! j)"
      and "set js \<subseteq> A" and "tiles_of c \<subseteq> A"
  shows "fold (route cfg ts k) js c = fold (route cfg ts' k) js c"
  using assms(1,3,4)
proof (induction js arbitrary: c)
  case Nil
  then show ?case by simp
next
  case (Cons j js)
  have jA: "j \<in> A" using Cons.prems(2) by simp
  have 1: "route cfg ts k j c = route cfg ts' k j c"
    using Cons.prems(1) [of j c] Cons.prems(3) boxes [OF jA] by (simp add: route_def)
  have "tiles_of (route cfg ts' k j c) \<subseteq> insert j (tiles_of c)"
    using tiles_of_AddObject_at [of cfg ts' k c j] by (auto simp: route_def)
  then have 2: "tiles_of (route cfg ts' k j c) \<subseteq> A"
    using jA Cons.prems(3) by auto
  have "fold (route cfg ts k) js (route cfg ts' k j c)
          = fold (route cfg ts' k) js (route cfg ts' k j c)"
    by (rule Cons.IH) (use Cons.prems 2 in auto)
  with 1 show ?case by simp
qed

lemma AddObject_at_cong:
  "(\<And>j. j \<in> insert i (tiles_of n) \<Longrightarrow> tile_box (ts ! j) = tile_box (ts' ! j))
   \<Longrightarrow> AddObject_at cfg ts k n i = AddObject_at cfg ts' k n i"
proof (induction k n i rule: AddObject_at_cases [where cfg = cfg and ts = ts])
  case (Internal k b d par c1 c2 c3 c4 i)
  have "route cfg ts (k - 1) i c = route cfg ts' (k - 1) i c"
    if "c \<in> {c1, c2, c3, c4}" for c
  proof -
    have t: "tiles_of c \<subseteq> tiles_of (Internal b d par c1 c2 c3 c4)"
      using that by auto
    have b: "tile_box (ts ! i) = tile_box (ts' ! i)"
      using Internal.prems by simp
    show ?thesis
    proof (cases "AABB_intersects (bounds c) (tile_box (ts ! i))")
      case True
      have "AddObject_at cfg ts (k - 1) c i = AddObject_at cfg ts' (k - 1) c i"
        by (rule Internal.IH [OF that True]) (use Internal.prems t in blast)
      then show ?thesis using True b by (simp add: route_def)
    next
      case False
      then show ?thesis using b by (simp add: route_def)
    qed
  qed
  from this [of c1] this [of c2] this [of c3] this [of c4] show ?case
    by (simp add: AddObject_at_Internal)
next
  case (Leaf k b d par cs i)
  show ?case
  proof (cases "should_split cfg b k (cs @ [i])")
    case True
    have "fold (route cfg ts (k - 1)) (cs @ [i]) (Node_new bmin bmax par' d')
            = fold (route cfg ts' (k - 1)) (cs @ [i]) (Node_new bmin bmax par' d')"
      for bmin bmax par' d'
    proof (rule fold_route_cong [where A = "set (cs @ [i])"])
      fix c j
      assume "j \<in> set (cs @ [i])" "tiles_of c \<subseteq> set (cs @ [i])"
        "AABB_intersects (bounds c) (tile_box (ts ! j))"
      then show "AddObject_at cfg ts (k - 1) c j = AddObject_at cfg ts' (k - 1) c j"
        using Leaf.IH [OF _ _ True, of j c] Leaf.prems by (simp add: subset_iff) blast
    next
      fix j assume "j \<in> set (cs @ [i])"
      then show "tile_box (ts ! j) = tile_box (ts' ! j)"
        using Leaf.prems by auto
    qed simp_all
    then show ?thesis
      using True by (simp add: AddObject_at_Leaf del: fold_append)
  next
    case False
    then show ?thesis by (simp add: AddObject_at_Leaf)
  qed
qed

subsection \<open>Queries\<close>




lemma quadrants_cover:
  "AABB_contains b p \<Longrightarrow>
   AABB_contains (quadrant1 b) p \<or> AABB_contains (quadrant2 b) p \<or>
   AABB_contains (quadrant3 b) p \<or> AABB_contains (quadrant4 b) p"
  by (auto simp: AABB_contains_def quadrant1_def quadrant2_def quadrant3_def quadrant4_def
      box_mid_def)

lemma quadrant_subset:
  "AABB_contains (quadrant1 b) p \<or> AABB_contains (quadrant2 b) p \<or>
   AABB_contains (quadrant3 b) p \<or> AABB_contains (quadrant4 b) p \<Longrightarrow>
   X (boxMin b) \<le> X (boxMax b) \<and> Y (boxMin b) \<le> Y (boxMax b) \<Longrightarrow> AABB_contains b p"
  by (auto simp: AABB_contains_def quadrant1_def quadrant2_def quadrant3_def quadrant4_def
      box_mid_def)

lemma FindTiles_defined:
  "quad_wf n \<Longrightarrow> AABB_contains (bounds n) p \<Longrightarrow> \<exists>cs. Node_FindTiles n p = Some cs"
proof (induction n p rule: Node_FindTiles.induct)
  case (1 b d par cs p)
  then show ?case by simp
next
  case (2 b d par c1 c2 c3 c4 p)
  from 2 quadrants_cover [of b p] show ?case
    by auto
qed

subsection \<open>Building\<close>

lemma Node_AddObject_simps [simp]:
  "bounds (Node_AddObject cfg ts n i) = bounds n"
  "depth (Node_AddObject cfg ts n i) = depth n"
  by (simp_all add: Node_AddObject_def)

lemma build_tree_simps [simp]:
  "build_tree cfg ts [] n = n"
  "build_tree cfg ts (j # js) n = build_tree cfg ts js (Node_AddObject cfg ts n j)"
  "build_tree cfg ts (js @ [j]) n = Node_AddObject cfg ts (build_tree cfg ts js n) j"
  by (simp_all add: build_tree_def)

lemma bounds_build_tree [simp]: "bounds (build_tree cfg ts js n) = bounds n"
  by (induction js arbitrary: n) simp_all

lemma depth_build_tree [simp]: "depth (build_tree cfg ts js n) = depth n"
  by (induction js arbitrary: n) simp_all

lemma quad_wf_build_tree: "quad_wf n \<Longrightarrow> quad_wf (build_tree cfg ts js n)"
  by (induction js arbitrary: n) (simp_all add: Node_AddObject_def quad_wf_AddObject_at)

lemma tiles_of_build_tree: "tiles_of (build_tree cfg ts js n) \<subseteq> set js \<union> tiles_of n"
proof (induction js arbitrary: n)
  case Nil
  then show ?case by simp
next
  case (Cons j js)
  have "tiles_of (Node_AddObject cfg ts n j) \<subseteq> insert j (tiles_of n)"
    by (simp add: Node_AddObject_def tiles_of_AddObject_at)
  with Cons [of "Node_AddObject cfg ts n j"] show ?case by auto
qed


lemma build_tree_cong:
  "(\<And>j. j \<in> set js \<union> tiles_of n \<Longrightarrow> tile_box (ts ! j) = tile_box (ts' ! j))
   \<Longrightarrow> build_tree cfg ts js n = build_tree cfg ts' js n"
proof (induction js arbitrary: n)
  case Nil
  then show ?case by simp
next
  case (Cons j js)
  have 1: "Node_AddObject cfg ts n j = Node_AddObject cfg ts' n j"
    unfolding Node_AddObject_def by (rule AddObject_at_cong) (use Cons.prems in auto)
  have "tiles_of (Node_AddObject cfg ts' n j) \<subseteq> insert j (tiles_of n)"
    by (simp add: Node_AddObject_def tiles_of_AddObject_at)
  then have "build_tree cfg ts js (Node_AddObject cfg ts' n j)
               = build_tree cfg ts' js (Node_AddObject cfg ts' n j)"
    by (intro Cons.IH Cons.prems) auto
  with 1 show ?case by simp
qed

lemma build_loop_eq:
  "rootNode s = Some r \<Longrightarrow>
   build_loop cfg js s =
     Inr (s\<lparr>rootNode := Some (build_tree cfg (world s) js r),
            indexCalls := indexCalls s @ map CallAddObject js\<rparr>)"
proof (induction js arbitrary: s r)
  case Nil
  then show ?case by simp
next
  case (Cons j js)
  then show ?case by simp
qed

section \<open>The field pass\<close>

subsection \<open>Tiles that differ in their field only\<close>

lemma reset_field_simps [simp]:
  "Tile.Type (reset_field t) = Tile.Type t"
  "Location (reset_field t) = Location t"
  "Tile.FieldStrength (reset_field t) = Tile.FieldStrength t"
  "Tile.FieldRange (reset_field t) = Tile.FieldRange t"
  "Tile.Colour (reset_field t) = Tile.Colour t"
  "LocalFieldValue (reset_field t) = Vector2f_Zero"
  "reset_field (t\<lparr>LocalFieldValue := v\<rparr>) = reset_field t"
  by (simp_all add: reset_field_def)

lemma reset_field_eqD:
  assumes "reset_field a = reset_field b"
  shows "Tile.Type a = Tile.Type b" "Location a = Location b"
    "Tile.FieldStrength a = Tile.FieldStrength b" "Tile.FieldRange a = Tile.FieldRange b"
    "Tile.Colour a = Tile.Colour b"
proof -
  show "Tile.Type a = Tile.Type b"
    using arg_cong [OF assms, of Tile.Type] by simp
  show "Location a = Location b"
    using arg_cong [OF assms, of Location] by simp
  show "Tile.FieldStrength a = Tile.FieldStrength b"
    using arg_cong [OF assms, of Tile.FieldStrength] by simp
  show "Tile.FieldRange a = Tile.FieldRange b"
    using arg_cong [OF assms, of Tile.FieldRange] by simp
  show "Tile.Colour a = Tile.Colour b"
    using arg_cong [OF assms, of Tile.Colour] by simp
qed

lemma tile_eq_reset:
  "reset_field a = reset_field b \<Longrightarrow> LocalFieldValue a = LocalFieldValue b \<Longrightarrow> a = b"
  by (cases a, cases b) (simp add: reset_field_def)

lemma CalculateFieldTo_cong:
  "reset_field a = reset_field a' \<Longrightarrow> reset_field b = reset_field b'
   \<Longrightarrow> CalculateFieldTo falloff a b = CalculateFieldTo falloff a' b'"
  using reset_field_eqD [of a a'] reset_field_eqD [of b b']
  by (simp add: CalculateFieldTo_def)

lemma tile_box_cong: "reset_field a = reset_field b \<Longrightarrow> tile_box a = tile_box b"
  using reset_field_eqD [of a b] by (simp add: tile_box_def)

lemma contribution_sum_cong:
  assumes "\<And>j. j \<in> insert cur (set cs) \<Longrightarrow> reset_field (w' ! j) = reset_field (w ! j)"
  shows "contribution_sum falloff w' cur cs = contribution_sum falloff w cur cs"
  unfolding contribution_sum_def
proof (rule fold_cong [OF refl refl])
  fix other
  assume "other \<in> set (filter (\<lambda>other. other \<noteq> cur) cs)"
  then have "CalculateFieldTo falloff (w' ! other) (w' ! cur)
               = CalculateFieldTo falloff (w ! other) (w ! cur)"
    by (intro CalculateFieldTo_cong assms) simp_all
  then show "(\<lambda>acc. vadd acc (CalculateFieldTo falloff (w' ! other) (w' ! cur)))
               = (\<lambda>acc. vadd acc (CalculateFieldTo falloff (w ! other) (w ! cur)))"
    by simp
qed

lemma final_field_cong:
  assumes "\<And>j. reset_field (w' ! j) = reset_field (w ! j)"
  shows "final_field falloff node w' i = final_field falloff node w i"
  using assms contribution_sum_cong [of i _ w' w falloff]
  by (auto simp: final_field_def reset_field_eqD [OF assms] split: option.splits)

subsection \<open>The candidate loop\<close>

lemma accumulate_eq:
  "cur < length w \<Longrightarrow>
   accumulate falloff cur cs w =
     w[cur := (w ! cur)\<lparr>LocalFieldValue :=
         fold (\<lambda>other acc. vadd acc (CalculateFieldTo falloff (w ! other) (w ! cur)))
           (filter (\<lambda>other. other \<noteq> cur) cs) (LocalFieldValue (w ! cur))\<rparr>]"
proof (induction cs arbitrary: w)
  case Nil
  then show ?case by simp
next
  case (Cons other cs)
  show ?case
  proof (cases "other = cur")
    case True
    then show ?thesis using Cons by simp
  next
    case False
    define v where "v = vadd (LocalFieldValue (w ! cur))
                          (CalculateFieldTo falloff (w ! other) (w ! cur))"
    define w1 where "w1 = w[cur := (w ! cur)\<lparr>LocalFieldValue := v\<rparr>]"
    have len: "cur < length w1" using Cons.prems by (simp add: w1_def)
    have same: "reset_field (w1 ! j) = reset_field (w ! j)" for j
      using Cons.prems by (cases "j = cur") (simp_all add: w1_def)
    have cur1: "w1 ! cur = (w ! cur)\<lparr>LocalFieldValue := v\<rparr>"
      using Cons.prems by (simp add: w1_def)
    have f: "fold (\<lambda>other acc. vadd acc (CalculateFieldTo falloff (w1 ! other) (w1 ! cur))) xs a
           = fold (\<lambda>other acc. vadd acc (CalculateFieldTo falloff (w ! other) (w ! cur))) xs a"
      for xs a
      by (rule fold_cong [OF refl refl]) (simp add: CalculateFieldTo_cong [OF same same])
    have "accumulate falloff cur (other # cs) w = accumulate falloff cur cs w1"
      using False by (simp add: w1_def v_def)
    also have "\<dots> = w1[cur := (w1 ! cur)\<lparr>LocalFieldValue :=
         fold (\<lambda>other acc. vadd acc (CalculateFieldTo falloff (w1 ! other) (w1 ! cur)))
           (filter (\<lambda>other. other \<noteq> cur) cs) (LocalFieldValue (w1 ! cur))\<rparr>]"
      by (rule Cons.IH [OF len])
    also have "\<dots> = w[cur := (w ! cur)\<lparr>LocalFieldValue :=
         fold (\<lambda>other acc. vadd acc (CalculateFieldTo falloff (w ! other) (w ! cur)))
           (filter (\<lambda>other. other \<noteq> cur) cs) v\<rparr>]"
      unfolding f by (simp add: cur1) (simp add: w1_def)
    finally show ?thesis
      using False by (simp add: v_def)
  qed
qed

lemma accumulate_reset:
  assumes "cur < length w"
  shows "accumulate falloff cur cs (w[cur := (w ! cur)\<lparr>LocalFieldValue := Vector2f_Zero\<rparr>])
           = w[cur := (w ! cur)\<lparr>LocalFieldValue := contribution_sum falloff w cur cs\<rparr>]"
proof -
  let ?w0 = "w[cur := (w ! cur)\<lparr>LocalFieldValue := Vector2f_Zero\<rparr>]"
  have same: "reset_field (?w0 ! j) = reset_field (w ! j)" for j
    using assms by (cases "j = cur") simp_all
  have f: "fold (\<lambda>other acc. vadd acc (CalculateFieldTo falloff (?w0 ! other) (?w0 ! cur))) xs a
         = fold (\<lambda>other acc. vadd acc (CalculateFieldTo falloff (w ! other) (w ! cur))) xs a"
    for xs a
    by (rule fold_cong [OF refl refl]) (simp add: CalculateFieldTo_cong [OF same same])
  have "cur < length ?w0" using assms by simp
  from accumulate_eq [OF this, of falloff cs] show ?thesis
    unfolding f using assms by (simp add: contribution_sum_def)
qed

subsection \<open>One iteration\<close>

lemma largest_update_same:
  "largestFieldStrength s = Some l \<Longrightarrow>
   s\<lparr>world := w, indexCalls := c, largestFieldStrength := Some l\<rparr>
     = s\<lparr>world := w, indexCalls := c\<rparr>"
  by (cases s) simp

lemma field_loop_Cons:
  assumes "cur < length (world s)"
  shows "field_loop falloff (cur # rest) s =
     (case field_step falloff cur s of
        Inl e \<Rightarrow> Inl e
      | Inr s1 \<Rightarrow> field_loop falloff rest s1)"
proof (cases "Tile.Type (world s ! cur) = ettObstructed")
  case True
  then show ?thesis
    using assms by (simp add: field_step_def reset_field_def)
next
  case False
  show ?thesis
  proof (cases "rootNode s")
    case None
    then show ?thesis using False assms by (simp add: field_step_def)
  next
    case (Some node)
    show ?thesis
    proof (cases "Node_FindTiles node (Location (world s ! cur))")
      case None
      then show ?thesis using False Some assms by (simp add: field_step_def)
    next
      case cs: (Some candidates)
      show ?thesis
      proof (cases "largestFieldStrength s")
        case None
        then show ?thesis using False Some cs assms by (simp add: field_step_def)
      next
        case l: (Some largest)
        let ?fs = "Magnitude (contribution_sum falloff (world s) cur candidates)"
        consider "largest < ?fs" | "largest = ?fs" | "?fs < largest"
          by linarith
        then show ?thesis
        proof cases
          case 1
          then show ?thesis
            using False Some cs l assms
            by (simp add: field_step_def accumulate_reset max_def Let_def)
        next
          case 2
          have l': "largestFieldStrength s = Some ?fs"
            using l 2 by simp
          show ?thesis
            using False Some cs l' assms
            by (simp add: field_step_def accumulate_reset Let_def largest_update_same [OF l'])
        next
          case 3
          then show ?thesis
            using False Some cs l assms
            by (simp add: field_step_def accumulate_reset max_def Let_def
                largest_update_same [OF l])
        qed
      qed
    qed
  qed
qed

lemma field_step_Inr:
  assumes "field_step falloff cur s = Inr s1" "cur < length (world s)" "rootNode s = Some r"
  shows "rootNode s1 = Some r" "Length s1 = Length s" "Width s1 = Width s"
    "TilePalette s1 = TilePalette s" "ShowField s1 = ShowField s"
    "length (world s1) = length (world s)"
    "reset_field (world s1 ! j) = reset_field (world s ! j)"
    "j \<noteq> cur \<Longrightarrow> world s1 ! j = world s ! j"
    "LocalFieldValue (world s1 ! cur) = final_field falloff r (world s) cur"
    "largestFieldStrength s = Some l \<Longrightarrow>
       largestFieldStrength s1 =
         Some (if Tile.Type (world s ! cur) = ettObstructed then l
               else max l (Magnitude (final_field falloff r (world s) cur)))"
    "indexCalls s1 = indexCalls s @
       (if Tile.Type (world s ! cur) = ettObstructed then []
        else [CallFindTiles (Location (world s ! cur))])"
  using assms
  by (cases "j = cur";
      auto simp: field_step_def final_field_def split: if_splits option.splits)+

lemma field_step_Inl:
  assumes "field_step falloff cur s = Inl e" "rootNode s = Some r"
    "largestFieldStrength s = Some l"
  shows "e = QueryOutsideRoot \<and> Tile.Type (world s ! cur) \<noteq> ettObstructed \<and>
         Node_FindTiles r (Location (world s ! cur)) = None"
  using assms by (auto simp: field_step_def split: if_splits option.splits)

lemma field_step_total:
  assumes "rootNode s = Some r" "largestFieldStrength s = Some l"
    "Tile.Type (world s ! cur) \<noteq> ettObstructed
       \<longrightarrow> Node_FindTiles r (Location (world s ! cur)) \<noteq> None"
  shows "\<exists>s1. field_step falloff cur s = Inr s1"
  using assms by (auto simp: field_step_def split: if_splits option.splits)

subsection \<open>The loop over the tiles\<close>

lemma field_loop_ConsE:
  assumes "field_loop falloff (cur # rest) s = Inr s'" "cur < length (world s)"
  obtains s1 where "field_step falloff cur s = Inr s1" "field_loop falloff rest s1 = Inr s'"
  using assms by (auto simp: field_loop_Cons simp del: field_loop.simps split: sum.splits)

lemma field_loop_frame:
  assumes "field_loop falloff js s = Inr s'" "set js \<subseteq> {..<length (world s)}"
    "rootNode s = Some r"
  shows "rootNode s' = Some r \<and> Length s' = Length s \<and> Width s' = Width s \<and>
         TilePalette s' = TilePalette s \<and> ShowField s' = ShowField s \<and>
         length (world s') = length (world s) \<and>
         (\<forall>j. reset_field (world s' ! j) = reset_field (world s ! j)) \<and>
         (\<forall>j. j \<notin> set js \<longrightarrow> world s' ! j = world s ! j)"
  using assms
proof (induction js arbitrary: s)
  case Nil
  then show ?case by simp
next
  case (Cons cur rest)
  have cur: "cur < length (world s)" using Cons.prems(2) by simp
  from Cons.prems(1) cur obtain s1 where
    s1: "field_step falloff cur s = Inr s1" "field_loop falloff rest s1 = Inr s'"
    by (rule field_loop_ConsE)
  note st = field_step_Inr [OF s1(1) cur Cons.prems(3)]
  have "set rest \<subseteq> {..<length (world s1)}"
    using Cons.prems(2) st(6) by simp
  from Cons.IH [OF s1(2) this st(1)] show ?case
    using st(2-8) by simp
qed

lemma field_loop_fields:
  assumes "field_loop falloff js s = Inr s'" "set js \<subseteq> {..<length (world s)}"
    "rootNode s = Some r" "distinct js" "i \<in> set js"
  shows "LocalFieldValue (world s' ! i) = final_field falloff r (world s) i"
  using assms
proof (induction js arbitrary: s)
  case Nil
  then show ?case by simp
next
  case (Cons cur rest)
  have cur: "cur < length (world s)" using Cons.prems(2) by simp
  from Cons.prems(1) cur obtain s1 where
    s1: "field_step falloff cur s = Inr s1" "field_loop falloff rest s1 = Inr s'"
    by (rule field_loop_ConsE)
  note st = field_step_Inr [OF s1(1) cur Cons.prems(3)]
  have sub: "set rest \<subseteq> {..<length (world s1)}"
    using Cons.prems(2) st(6) by simp
  show ?case
  proof (cases "i = cur")
    case True
    then have "i \<notin> set rest" using Cons.prems(4) by simp
    then have "world s' ! i = world s1 ! i"
      using field_loop_frame [OF s1(2) sub st(1)] by simp
    then show ?thesis using True st(9) by simp
  next
    case False
    then have "i \<in> set rest" using Cons.prems(5) by simp
    then have "LocalFieldValue (world s' ! i) = final_field falloff r (world s1) i"
      using Cons.IH [OF s1(2) sub st(1)] Cons.prems(4) by simp
    also have "\<dots> = final_field falloff r (world s) i"
      by (rule final_field_cong) (rule st(7))
    finally show ?thesis .
  qed
qed

lemma field_loop_calls:
  assumes "field_loop falloff js s = Inr s'" "set js \<subseteq> {..<length (world s)}"
    "rootNode s = Some r"
  shows "indexCalls s' = indexCalls s @
           map (\<lambda>i. CallFindTiles (Location (world s ! i)))
             (filter (\<lambda>i. Tile.Type (world s ! i) \<noteq> ettObstructed) js)"
  using assms
proof (induction js arbitrary: s)
  case Nil
  then show ?case by simp
next
  case (Cons cur rest)
  have cur: "cur < length (world s)" using Cons.prems(2) by simp
  from Cons.prems(1) cur obtain s1 where
    s1: "field_step falloff cur s = Inr s1" "field_loop falloff rest s1 = Inr s'"
    by (rule field_loop_ConsE)
  note st = field_step_Inr [OF s1(1) cur Cons.prems(3)]
  have sub: "set rest \<subseteq> {..<length (world s1)}"
    using Cons.prems(2) st(6) by simp
  have same: "Tile.Type (world s1 ! j) = Tile.Type (world s ! j)"
    "Location (world s1 ! j) = Location (world s ! j)" for j
    using reset_field_eqD [OF st(7) [of j]] by simp_all
  from Cons.IH [OF s1(2) sub st(1)] show ?case
    by (simp add: st(11) same)
qed

lemma magnitudes_cong:
  assumes "\<And>j. reset_field (w' ! j) = reset_field (w ! j)"
  shows "magnitudes falloff r w' A = magnitudes falloff r w A"
  using reset_field_eqD(1) [OF assms] final_field_cong [of w' w falloff r, OF assms]
  by (simp add: magnitudes_def)

lemma magnitudes_insert:
  "magnitudes falloff r w (insert i A) =
     (if Tile.Type (w ! i) = ettObstructed then magnitudes falloff r w A
      else insert (Magnitude (final_field falloff r w i)) (magnitudes falloff r w A))"
  by (auto simp: magnitudes_def)

lemma finite_magnitudes [simp]: "finite A \<Longrightarrow> finite (magnitudes falloff r w A)"
  by (simp add: magnitudes_def)

lemma field_loop_largest:
  assumes "field_loop falloff js s = Inr s'" "set js \<subseteq> {..<length (world s)}"
    "rootNode s = Some r" "largestFieldStrength s = Some l"
  shows "largestFieldStrength s' = Some (Max (insert l (magnitudes falloff r (world s) (set js))))"
  using assms
proof (induction js arbitrary: s l)
  case Nil
  then show ?case by (simp add: magnitudes_def)
next
  case (Cons cur rest)
  have cur: "cur < length (world s)" using Cons.prems(2) by simp
  from Cons.prems(1) cur obtain s1 where
    s1: "field_step falloff cur s = Inr s1" "field_loop falloff rest s1 = Inr s'"
    by (rule field_loop_ConsE)
  note st = field_step_Inr [OF s1(1) cur Cons.prems(3)]
  have sub: "set rest \<subseteq> {..<length (world s1)}"
    using Cons.prems(2) st(6) by simp
  let ?M = "magnitudes falloff r (world s) (set rest)"
  have fin: "finite ?M" by simp
  have M1: "magnitudes falloff r (world s1) (set rest) = ?M"
    by (rule magnitudes_cong) (rule st(7))
  show ?case
  proof (cases "Tile.Type (world s ! cur) = ettObstructed")
    case True
    then have "largestFieldStrength s1 = Some l"
      using st(10) [OF Cons.prems(4)] by simp
    from Cons.IH [OF s1(2) sub st(1) this] show ?thesis
      using True by (simp add: M1 magnitudes_insert)
  next
    case False
    let ?m = "Magnitude (final_field falloff r (world s) cur)"
    have "largestFieldStrength s1 = Some (max l ?m)"
      using st(10) [OF Cons.prems(4)] False by simp
    from Cons.IH [OF s1(2) sub st(1) this]
    have "largestFieldStrength s' = Some (Max (insert (max l ?m) ?M))"
      by (simp add: M1)
    also have "Max (insert (max l ?m) ?M) = Max (insert l (insert ?m ?M))"
      using fin by (cases "?M = {}") (simp_all add: max.assoc)
    finally show ?thesis
      using False by (simp add: magnitudes_insert)
  qed
qed

lemma field_loop_total:
  assumes "set js \<subseteq> {..<length (world s)}" "rootNode s = Some r"
    "largestFieldStrength s = Some l"
    "\<And>i. i \<in> set js \<Longrightarrow> Tile.Type (world s ! i) \<noteq> ettObstructed
       \<Longrightarrow> Node_FindTiles r (Location (world s ! i)) \<noteq> None"
  shows "\<exists>s'. field_loop falloff js s = Inr s'"
  using assms
proof (induction js arbitrary: s l)
  case Nil
  then show ?case by simp
next
  case (Cons cur rest)
  have cur: "cur < length (world s)" using Cons.prems(1) by simp
  obtain s1 where s1: "field_step falloff cur s = Inr s1"
    using field_step_total [OF Cons.prems(2,3), of cur falloff] Cons.prems(4) [of cur] by auto
  note st = field_step_Inr [OF s1 cur Cons.prems(2)]
  have same: "Tile.Type (world s1 ! j) = Tile.Type (world s ! j)"
    "Location (world s1 ! j) = Location (world s ! j)" for j
    using reset_field_eqD [OF st(7) [of j]] by simp_all
  have "\<exists>s'. field_loop falloff rest s1 = Inr s'"
  proof (rule Cons.IH [OF _ st(1) st(10) [OF Cons.prems(3)]])
    show "set rest \<subseteq> {..<length (world s1)}"
      using Cons.prems(1) st(6) by simp
  next
    fix i assume "i \<in> set rest" "Tile.Type (world s1 ! i) \<noteq> ettObstructed"
    then show "Node_FindTiles r (Location (world s1 ! i)) \<noteq> None"
      using Cons.prems(4) [of i] by (simp add: same)
  qed
  then show ?case
    using s1 cur by (simp add: field_loop_Cons del: field_loop.simps)
qed

lemma field_loop_error:
  assumes "field_loop falloff js s = Inl e" "set js \<subseteq> {..<length (world s)}"
    "rootNode s = Some r" "largestFieldStrength s = Some l"
  shows "e = QueryOutsideRoot \<and>
         (\<exists>i \<in> set js. Tile.Type (world s ! i) \<noteq> ettObstructed \<and>
            Node_FindTiles r (Location (world s ! i)) = None)"
  using assms
proof (induction js arbitrary: s l)
  case Nil
  then show ?case by simp
next
  case (Cons cur rest)
  have cur: "cur < length (world s)" using Cons.prems(2) by simp
  show ?case
  proof (cases "field_step falloff cur s")
    case (Inl e')
    then have "e' = e"
      using Cons.prems(1) cur by (simp add: field_loop_Cons del: field_loop.simps)
    then show ?thesis
      using field_step_Inl [OF Inl Cons.prems(3,4)] by auto
  next
    case (Inr s1)
    note st = field_step_Inr [OF Inr cur Cons.prems(3)]
    have same: "Tile.Type (world s1 ! j) = Tile.Type (world s ! j)"
      "Location (world s1 ! j) = Location (world s ! j)" for j
      using reset_field_eqD [OF st(7) [of j]] by simp_all
    have "field_loop falloff rest s1 = Inl e"
      using Cons.prems(1) cur Inr by (simp add: field_loop_Cons del: field_loop.simps)
    from Cons.IH [OF this _ st(1) st(10) [OF Cons.prems(4)]] Cons.prems(2) st(6)
    show ?thesis by (auto simp: same)
  qed
qed

subsection \<open>The whole pass\<close>

lemma worldBounds_update [simp]:
  "worldBounds (s\<lparr>largestFieldStrength := l\<rparr>) = worldBounds s"
  "worldBounds (s\<lparr>world := w\<rparr>) = worldBounds s"
  "worldBounds (s\<lparr>rootNode := r\<rparr>) = worldBounds s"
  "worldBounds (s\<lparr>indexCalls := c\<rparr>) = worldBounds s"
  by (simp_all add: worldBounds_def)

lemma CalculateField_eq:
  "CalculateField cfg falloff s =
     field_loop falloff [0 ..< length (world s)] (pass_start cfg s)"
  by (simp add: CalculateField_def Let_def build_loop_eq pass_start_def pass_root_def
      del: field_loop.simps)

lemma pass_start_simps [simp]:
  "world (pass_start cfg s) = world s"
  "rootNode (pass_start cfg s) = Some (pass_root cfg s)"
  "largestFieldStrength (pass_start cfg s) = Some 0"
  "Length (pass_start cfg s) = Length s"
  "Width (pass_start cfg s) = Width s"
  "TilePalette (pass_start cfg s) = TilePalette s"
  "ShowField (pass_start cfg s) = ShowField s"
  "indexCalls (pass_start cfg s) = indexCalls s @ CallNew (worldBounds s) None 0
                       # map CallAddObject [0 ..< length (world s)]"
  by (simp_all add: pass_start_def)

lemma upt_sub: "set [0 ..< length (world s)] \<subseteq> {..<length (world (pass_start cfg s))}"
  by auto

lemma CalculateField_frame:
  assumes "CalculateField cfg falloff s = Inr s'"
  shows "rootNode s' = Some (pass_root cfg s)" "Length s' = Length s" "Width s' = Width s"
    "TilePalette s' = TilePalette s" "ShowField s' = ShowField s"
    "length (world s') = length (world s)"
    "reset_field (world s' ! j) = reset_field (world s ! j)"
  using field_loop_frame [OF assms [unfolded CalculateField_eq] upt_sub, of "pass_root cfg s"]
  by simp_all

lemma CalculateField_field:
  assumes "CalculateField cfg falloff s = Inr s'" "i < length (world s)"
  shows "LocalFieldValue (world s' ! i) = final_field falloff (pass_root cfg s) (world s) i"
  using field_loop_fields [OF assms(1) [unfolded CalculateField_eq] upt_sub, of "pass_root cfg s" i]
    assms(2) by simp

lemma CalculateField_largest:
  assumes "CalculateField cfg falloff s = Inr s'"
  shows "largestFieldStrength s' =
           Some (Max (insert 0 (magnitudes falloff (pass_root cfg s) (world s)
                                  {..<length (world s)})))"
  using field_loop_largest [OF assms [unfolded CalculateField_eq] upt_sub, of "pass_root cfg s" 0]
  by (simp add: atLeast0LessThan)

lemma CalculateField_calls:
  assumes "CalculateField cfg falloff s = Inr s'"
  shows "indexCalls s' =
           indexCalls s @ CallNew (worldBounds s) None 0
             # map CallAddObject [0 ..< length (world s)]
             @ map (\<lambda>i. CallFindTiles (Location (world s ! i)))
                 (filter (\<lambda>i. Tile.Type (world s ! i) \<noteq> ettObstructed)
                    [0 ..< length (world s)])"
  using field_loop_calls [OF assms [unfolded CalculateField_eq] upt_sub, of "pass_root cfg s"]
  by simp

lemma CalculateField_total:
  assumes "\<And>i. i < length (world s) \<Longrightarrow> Tile.Type (world s ! i) \<noteq> ettObstructed
             \<Longrightarrow> Node_FindTiles (pass_root cfg s) (Location (world s ! i)) \<noteq> None"
  shows "\<exists>s'. CalculateField cfg falloff s = Inr s'"
  unfolding CalculateField_eq
  by (rule field_loop_total [where r = "pass_root cfg s" and l = 0]) (use assms in auto)

lemma CalculateField_error:
  assumes "CalculateField cfg falloff s = Inl e"
  shows "e = QueryOutsideRoot \<and>
         (\<exists>i < length (world s). Tile.Type (world s ! i) \<noteq> ettObstructed \<and>
            Node_FindTiles (pass_root cfg s) (Location (world s ! i)) = None)"
  using field_loop_error [OF assms [unfolded CalculateField_eq] upt_sub, of "pass_root cfg s" 0]
  by auto

lemma pass_root_facts [simp]:
  "bounds (pass_root cfg s) = worldBounds s"
  "depth (pass_root cfg s) = 0"
  "quad_wf (pass_root cfg s)"
  by (simp_all add: pass_root_def quad_wf_build_tree worldBounds_def)

lemma tiles_of_pass_root: "tiles_of (pass_root cfg s) \<subseteq> {..<length (world s)}"
  using tiles_of_build_tree [of cfg "world s" "[0 ..< length (world s)]"
      "Node_new (boxMin (worldBounds s)) (boxMax (worldBounds s)) None 0"]
  by (auto simp: pass_root_def)


lemma pass_root_defined:
  "AABB_contains (worldBounds s) p \<Longrightarrow> \<exists>cs. Node_FindTiles (pass_root cfg s) p = Some cs"
  by (rule FindTiles_defined) simp_all

lemma pass_root_cong:
  assumes "Length s1 = Length s2" "Width s1 = Width s2"
    "map reset_field (world s1) = map reset_field (world s2)"
  shows "pass_root cfg s1 = pass_root cfg s2"
proof -
  have len: "length (world s1) = length (world s2)"
    using arg_cong [OF assms(3), of length] by simp
  have same: "reset_field (world s1 ! j) = reset_field (world s2 ! j)"
    if "j < length (world s1)" for j
    using arg_cong [OF assms(3), of "\<lambda>xs. xs ! j"] that len by simp
  have wb: "worldBounds s1 = worldBounds s2"
    using assms(1,2) by (simp add: worldBounds_def)
  have "build_tree cfg (world s1) [0 ..< length (world s1)] n
          = build_tree cfg (world s2) [0 ..< length (world s1)] n"
    if "tiles_of n = {}" for n
    by (rule build_tree_cong) (use that same in \<open>auto intro: tile_box_cong\<close>)
  then show ?thesis
    by (simp add: pass_root_def wb len)
qed

lemma field_step_defined:
  assumes "field_step falloff cur s = Inr s1" "rootNode s = Some r"
    "Tile.Type (world s ! cur) \<noteq> ettObstructed"
  shows "\<exists>cs. Node_FindTiles r (Location (world s ! cur)) = Some cs"
  using assms by (auto simp: field_step_def split: option.splits)

lemma field_loop_defined:
  assumes "field_loop falloff js s = Inr s'" "set js \<subseteq> {..<length (world s)}"
    "rootNode s = Some r" "i \<in> set js" "Tile.Type (world s ! i) \<noteq> ettObstructed"
  shows "\<exists>cs. Node_FindTiles r (Location (world s ! i)) = Some cs"
  using assms
proof (induction js arbitrary: s)
  case Nil
  then show ?case by simp
next
  case (Cons cur rest)
  have cur: "cur < length (world s)" using Cons.prems(2) by simp
  from Cons.prems(1) cur obtain s1 where
    s1: "field_step falloff cur s = Inr s1" "field_loop falloff rest s1 = Inr s'"
    by (rule field_loop_ConsE)
  note st = field_step_Inr [OF s1(1) cur Cons.prems(3)]
  have same: "Tile.Type (world s1 ! j) = Tile.Type (world s ! j)"
    "Location (world s1 ! j) = Location (world s ! j)" for j
    using reset_field_eqD [OF st(7) [of j]] by simp_all
  show ?case
  proof (cases "i = cur")
    case True
    then show ?thesis
      using field_step_defined [OF s1(1) Cons.prems(3)] Cons.prems(5) by simp
  next
    case False
    then have "i \<in> set rest" using Cons.prems(4) by simp
    moreover have "set rest \<subseteq> {..<length (world s1)}"
      using Cons.prems(2) st(6) by simp
    ultimately show ?thesis
      using Cons.IH [OF s1(2) _ st(1)] Cons.prems(5) by (simp add: same)
  qed
qed

lemma CalculateField_candidates:
  assumes "CalculateField cfg falloff s = Inr s'" "i < length (world s)"
    "Tile.Type (world s ! i) \<noteq> ettObstructed"
  shows "\<exists>cs. Node_FindTiles (pass_root cfg s) (Location (world s ! i)) = Some cs"
  using field_loop_defined [OF assms(1) [unfolded CalculateField_eq] upt_sub,
      of "pass_root cfg s" i] assms(2,3)
  by simp

lemma parent_AddObject_at [simp]: "parent (AddObject_at cfg ts k n i) = parent n"
  by (cases n) (simp_all add: AddObject_at_Internal AddObject_at_Leaf)

lemma parent_build_tree [simp]: "parent (build_tree cfg ts js n) = parent n"
  by (induction js arbitrary: n) (simp_all add: Node_AddObject_def)

lemma Magnitude_nonneg: "0 \<le> Magnitude v"
  by (simp add: Magnitude_def)

lemma Magnitude_Zero [simp]: "Magnitude Vector2f_Zero = 0"
  by (simp add: Magnitude_def Vector2f_Zero_def)

lemma processed_after:
  assumes "CalculateField cfg falloff s = Inr s'"
  shows "processed s' = processed s"
proof -
  have "Tile.Type (world s' ! i) = Tile.Type (world s ! i)" for i
    using reset_field_eqD(1) [OF CalculateField_frame(7) [OF assms, of i]] .
  then show ?thesis
    by (simp add: processed_def CalculateField_frame(6) [OF assms])
qed

lemma magnitudes_after:
  assumes "CalculateField cfg falloff s = Inr s'"
  shows "set (map (\<lambda>i. Magnitude (LocalFieldValue (world s' ! i))) (processed s'))
           = magnitudes falloff (pass_root cfg s) (world s) {..<length (world s)}"
proof -
  have "Magnitude (LocalFieldValue (world s' ! i))
          = Magnitude (final_field falloff (pass_root cfg s) (world s) i)"
    if "i \<in> set (processed s)" for i
    using that CalculateField_field [OF assms, of i] by (simp add: processed_def)
  moreover have "set (processed s)
      = {i \<in> {..<length (world s)}. Tile.Type (world s ! i) \<noteq> ettObstructed}"
    by (auto simp: processed_def)
  ultimately show ?thesis
    unfolding processed_after [OF assms] magnitudes_def by (simp add: image_def)
qed

lemma Max_insert_zero:
  assumes "finite M" "M \<noteq> {}" "\<And>m. m \<in> M \<Longrightarrow> (0::real) \<le> m"
  shows "Max (insert 0 M) = Max M"
proof -
  obtain m where "m \<in> M" using assms(2) by blast
  then have "0 \<le> m" "m \<le> Max M"
    using assms(1,3) by simp_all
  then have "0 \<le> Max M"
    by linarith
  then show ?thesis
    using assms(1,2) by (simp add: max_def)
qed

lemma single_tile_field:
  assumes "CalculateField cfg falloff s = Inr s'" "length (world s) = 1"
  shows "LocalFieldValue (world s' ! 0) = Vector2f_Zero"
proof (cases "Tile.Type (world s ! 0) = ettObstructed")
  case True
  then show ?thesis
    using CalculateField_field [OF assms(1), of 0] assms(2) by (simp add: final_field_def)
next
  case False
  obtain cs where cs: "Node_FindTiles (pass_root cfg s) (Location (world s ! 0)) = Some cs"
    using CalculateField_candidates [OF assms(1) _ False] assms(2) by auto
  have "set cs \<subseteq> {0}"
    using Node_FindTiles_subset [OF cs] tiles_of_pass_root [of cfg s] assms(2) by auto
  then have "filter (\<lambda>other. other \<noteq> 0) cs = []"
    by (auto simp: filter_empty_conv)
  then show ?thesis
    using CalculateField_field [OF assms(1), of 0] assms(2) False cs
    by (simp add: final_field_def contribution_sum_def)
qed

lemma upt_processed:
  "map (\<lambda>i. CallFindTiles (Location (world s ! i)))
     (filter (\<lambda>i. Tile.Type (world s ! i) \<noteq> ettObstructed) [0 ..< length (world s)])
   = map (\<lambda>i. CallFindTiles (Location (world s ! i))) (processed s)"
  by (simp add: processed_def)

subsection \<open>Two generators with the same tiles\<close>

lemma tile_data_eq_iff: "tile_data a = tile_data b \<longleftrightarrow> reset_field a = reset_field b"
  by (cases a, cases b) (auto simp: tile_data_def reset_field_def)

lemma same_data_same_reset:
  "map tile_data w = map tile_data w' \<Longrightarrow> map reset_field w = map reset_field w'"
proof (induction w arbitrary: w')
  case Nil
  then show ?case by simp
next
  case (Cons t w)
  then obtain t' w'' where w': "w' = t' # w''"
    by (cases w') auto
  with Cons show ?case
    by (simp add: tile_data_eq_iff)
qed

lemma final_field_cong_bounded:
  assumes same: "\<And>j. j < n \<Longrightarrow> reset_field (w' ! j) = reset_field (w ! j)"
    and "i < n" and sub: "tiles_of r \<subseteq> {..<n}"
  shows "final_field falloff r w' i = final_field falloff r w i"
proof -
  note i = reset_field_eqD [OF same [OF assms(2)]]
  show ?thesis
  proof (cases "Node_FindTiles r (Location (w ! i))")
    case None
    then show ?thesis by (simp add: final_field_def i)
  next
    case (Some cs)
    have "set cs \<subseteq> {..<n}"
      using Node_FindTiles_subset [OF Some] sub by blast
    then have "contribution_sum falloff w' i cs = contribution_sum falloff w i cs"
      by (intro contribution_sum_cong same) (use assms(2) in auto)
    then show ?thesis
      using Some by (simp add: final_field_def i)
  qed
qed

lemma magnitudes_cong_bounded:
  assumes same: "\<And>j. j < n \<Longrightarrow> reset_field (w' ! j) = reset_field (w ! j)"
    and sub: "tiles_of r \<subseteq> {..<n}"
  shows "magnitudes falloff r w' {..<n} = magnitudes falloff r w {..<n}"
proof -
  have type_eq: "Tile.Type (w' ! i) = Tile.Type (w ! i)" if "i < n" for i
    using reset_field_eqD(1) [OF same [OF that]] .
  have field_eq: "final_field falloff r w' i = final_field falloff r w i" if "i < n" for i
    using final_field_cong_bounded [OF same that sub] .
  have A: "{i \<in> {..<n}. Tile.Type (w' ! i) \<noteq> ettObstructed}
             = {i \<in> {..<n}. Tile.Type (w ! i) \<noteq> ettObstructed}"
    using type_eq by auto
  show ?thesis
    unfolding magnitudes_def A
  proof (rule image_cong [OF refl])
    fix x assume "x \<in> {i \<in> {..<n}. Tile.Type (w ! i) \<noteq> ettObstructed}"
    then have "x < n" by simp
    then show "Magnitude (final_field falloff r w' x) = Magnitude (final_field falloff r w x)"
      by (simp only: field_eq)
  qed
qed

lemma CalculateField_output:
  assumes "CalculateField cfg falloff s = Inr s'"
  shows "pass_output (CalculateField cfg falloff s) =
           Inr (map (final_field falloff (pass_root cfg s) (world s)) [0 ..< length (world s)],
                Some (Max (insert 0 (magnitudes falloff (pass_root cfg s) (world s)
                                       {..<length (world s)}))))"
proof -
  have "map LocalFieldValue (world s')
          = map (final_field falloff (pass_root cfg s) (world s)) [0 ..< length (world s)]"
  proof (rule nth_equalityI)
    show "length (map LocalFieldValue (world s'))
            = length (map (final_field falloff (pass_root cfg s) (world s))
                        [0 ..< length (world s)])"
      using CalculateField_frame(6) [OF assms] by simp
  next
    fix i assume "i < length (map LocalFieldValue (world s'))"
    then have i: "i < length (world s)"
      using CalculateField_frame(6) [OF assms] by simp
    then show "map LocalFieldValue (world s') ! i
                 = map (final_field falloff (pass_root cfg s) (world s))
                     [0 ..< length (world s)] ! i"
      using CalculateField_frame(6) [OF assms] CalculateField_field [OF assms i] by simp
  qed
  then show ?thesis
    using assms CalculateField_largest [OF assms] by (simp add: pass_output_def)
qed

lemma CalculateField_Inr_transfer:
  assumes "CalculateField cfg falloff s1 = Inr s1'"
    and "Length s1 = Length s2" "Width s1 = Width s2"
    and "map reset_field (world s1) = map reset_field (world s2)"
  shows "\<exists>s2'. CalculateField cfg falloff s2 = Inr s2'"
proof (rule CalculateField_total)
  fix i
  assume i: "i < length (world s2)" "Tile.Type (world s2 ! i) \<noteq> ettObstructed"
  have len: "length (world s1) = length (world s2)"
    using arg_cong [OF assms(4), of length] by simp
  have same: "reset_field (world s1 ! i) = reset_field (world s2 ! i)"
    using arg_cong [OF assms(4), of "\<lambda>xs. xs ! i"] i(1) len by simp
  have "\<exists>cs. Node_FindTiles (pass_root cfg s1) (Location (world s1 ! i)) = Some cs"
    by (rule CalculateField_candidates [OF assms(1)])
      (use i len reset_field_eqD(1) [OF same] in auto)
  then show "Node_FindTiles (pass_root cfg s2) (Location (world s2 ! i)) \<noteq> None"
    using pass_root_cong [OF assms(2-4), of cfg] reset_field_eqD(2) [OF same] by auto
qed

section \<open>Generation of the world\<close>

lemma gen_cell_Inr:
  assumes "gen_cell rand lengthIndex widthIndex (s, n) = Inr (s', n')"
  shows "\<exists>t. s' = s\<lparr>world := world s @ [t]\<rparr> \<and>
             Location t = \<lparr>X = real_of_int lengthIndex, Y = real_of_int widthIndex\<rparr>"
  using assms
  by (auto simp: gen_cell_def Let_def Tile_new_def split: sum.splits option.splits)

lemma gen_row_Inr:
  assumes "gen_row rand lengthIndex ws (s, n) = Inr (s', n')"
  shows "\<exists>new. s' = s\<lparr>world := world s @ new\<rparr> \<and>
           (\<forall>t \<in> set new. \<exists>widthIndex \<in> set ws.
              Location t = \<lparr>X = real_of_int lengthIndex, Y = real_of_int widthIndex\<rparr>)"
  using assms
proof (induction ws arbitrary: s n)
  case Nil
  then show ?case by (intro exI [of _ "[]"]) simp
next
  case (Cons widthIndex ws)
  from Cons.prems obtain s1 n1 where
    cell: "gen_cell rand lengthIndex widthIndex (s, n) = Inr (s1, n1)"
    and rest: "gen_row rand lengthIndex ws (s1, n1) = Inr (s', n')"
    by (auto split: sum.splits)
  from gen_cell_Inr [OF cell] obtain t where
    t: "s1 = s\<lparr>world := world s @ [t]\<rparr>"
       "Location t = \<lparr>X = real_of_int lengthIndex, Y = real_of_int widthIndex\<rparr>"
    by blast
  from Cons.IH [OF rest] obtain new where
    new: "s' = s1\<lparr>world := world s1 @ new\<rparr>"
         "\<forall>t \<in> set new. \<exists>widthIndex \<in> set ws.
            Location t = \<lparr>X = real_of_int lengthIndex, Y = real_of_int widthIndex\<rparr>"
    by blast
  show ?case
  proof (intro exI [of _ "t # new"] conjI)
    show "s' = s\<lparr>world := world s @ t # new\<rparr>"
      using t(1) new(1) by simp
    show "\<forall>t \<in> set (t # new). \<exists>widthIndex \<in> set (widthIndex # ws).
            Location t = \<lparr>X = real_of_int lengthIndex, Y = real_of_int widthIndex\<rparr>"
      using t(2) new(2) by auto
  qed
qed

lemma gen_rows_Inr:
  assumes "gen_rows rand ls (s, n) = Inr (s', n')"
  shows "\<exists>new. s' = s\<lparr>world := world s @ new\<rparr> \<and>
           (\<forall>t \<in> set new. \<exists>lengthIndex \<in> set ls. \<exists>widthIndex \<in> set [0 .. Width s - 1].
              Location t = \<lparr>X = real_of_int lengthIndex, Y = real_of_int widthIndex\<rparr>)"
  using assms
proof (induction ls arbitrary: s n)
  case Nil
  then show ?case by (intro exI [of _ "[]"]) simp
next
  case (Cons lengthIndex ls)
  from Cons.prems obtain s1 n1 where
    row: "gen_row rand lengthIndex [0 .. Width s - 1] (s, n) = Inr (s1, n1)"
    and rest: "gen_rows rand ls (s1, n1) = Inr (s', n')"
    by (auto split: sum.splits)
  from gen_row_Inr [OF row] obtain new1 where
    new1: "s1 = s\<lparr>world := world s @ new1\<rparr>"
          "\<forall>t \<in> set new1. \<exists>widthIndex \<in> set [0 .. Width s - 1].
             Location t = \<lparr>X = real_of_int lengthIndex, Y = real_of_int widthIndex\<rparr>"
    by blast
  have w: "Width s1 = Width s" using new1(1) by simp
  from Cons.IH [OF rest] obtain new2 where
    new2: "s' = s1\<lparr>world := world s1 @ new2\<rparr>"
          "\<forall>t \<in> set new2. \<exists>lengthIndex \<in> set ls. \<exists>widthIndex \<in> set [0 .. Width s - 1].
             Location t = \<lparr>X = real_of_int lengthIndex, Y = real_of_int widthIndex\<rparr>"
    unfolding w by blast
  show ?case
  proof (intro exI [of _ "new1 @ new2"] conjI)
    show "s' = s\<lparr>world := world s @ new1 @ new2\<rparr>"
      using new1(1) new2(1) by simp
    show "\<forall>t \<in> set (new1 @ new2). \<exists>lengthIndex' \<in> set (lengthIndex # ls).
            \<exists>widthIndex \<in> set [0 .. Width s - 1].
            Location t = \<lparr>X = real_of_int lengthIndex', Y = real_of_int widthIndex\<rparr>"
      using new1(2) new2(2) by auto
  qed
qed

lemma GenerateWorld_Inr:
  assumes "GenerateWorld rand (s, n) = Inr (s', n')"
  shows "\<exists>new. s' = s\<lparr>world := world s @ new\<rparr> \<and> (\<forall>t \<in> set new. on_grid s t)"
proof (cases "TilePalette s = []")
  case True
  then have "s' = s" using assms by (simp add: GenerateWorld_def)
  then show ?thesis by (intro exI [of _ "[]"]) simp
next
  case False
  then have "gen_rows rand [0 .. Length s - 1] (s, n) = Inr (s', n')"
    using assms by (simp add: GenerateWorld_def split: if_splits)
  from gen_rows_Inr [OF this] show ?thesis
    unfolding on_grid_def by blast
qed

lemma on_grid_in_bounds: "on_grid s t \<Longrightarrow> AABB_contains (worldBounds s) (Location t)"
  by (auto simp: on_grid_def AABB_contains_def worldBounds_def Vector2f_Zero_def)

lemma Generate_Inr:
  assumes "Generate rand (s, n) = Inr (s', n')"
  shows "rootNode s' = rootNode s" "Length s' = Length s" "Width s' = Width s"
    "indexCalls s' = indexCalls s" "\<forall>t \<in> set (world s'). on_grid s' t"
proof -
  let ?s0 = "ClearWorld (NormaliseProbabilities s)"
  have s0: "rootNode ?s0 = rootNode s" "Length ?s0 = Length s" "Width ?s0 = Width s"
    "indexCalls ?s0 = indexCalls s" "world ?s0 = []"
    by (simp_all add: ClearWorld_def NormaliseProbabilities_def Let_def)
  from assms have "GenerateWorld rand (?s0, n) = Inr (s', n')"
    by (simp add: Generate_def)
  from GenerateWorld_Inr [OF this] obtain new where
    new: "s' = ?s0\<lparr>world := world ?s0 @ new\<rparr>" "\<forall>t \<in> set new. on_grid ?s0 t"
    by blast
  show "rootNode s' = rootNode s" "Length s' = Length s" "Width s' = Width s"
    "indexCalls s' = indexCalls s"
    using new(1) s0 by simp_all
  have "on_grid s' t = on_grid ?s0 t" for t
    using new(1) by (simp add: on_grid_def)
  then show "\<forall>t \<in> set (world s'). on_grid s' t"
    using new s0(5) by simp
qed

lemma pass_calls_eq:
  assumes "CalculateField cfg falloff s = Inr s'"
  shows "pass_calls s s' =
           CallNew (worldBounds s) None 0 # map CallAddObject [0 ..< length (world s)]
             @ map (\<lambda>i. CallFindTiles (Location (world s ! i))) (processed s)"
  unfolding pass_calls_def CalculateField_calls [OF assms] upt_processed by simp

section \<open>Evaluation of the examples\<close>

text \<open>The definitions that \<open>simp\<close> unfolds to run the model on the example inputs.\<close>

lemmas example_defs = example_config_def example_falloff_def obstacle_pair_def
  TiledWorldGenerator_new_def Tile_new_def AvailableTile_new_def

lemmas eval_defs = CalculateField_def worldBounds_def Node_new_def Node_AddObject_def
  AddObject_at.simps Vector2f_Zero_def CalculateFieldTo_def vadd_def vsub_def Magnitude_def
  AABB_contains_def AABB_intersects_def tile_box_def box_larger_def box_mid_def
  quadrant1_def quadrant2_def quadrant3_def quadrant4_def upt_rec Let_def
  ReturnSelectedNode_def processed_def contribution_sum_def

lemmas more_example_defs = stale_obstacle_def twin_tiles_def constant_falloff_def

lemmas generation_defs = small_generator_def example_rand_def small_world_def Generate_def
  GenerateWorld_def ClearWorld_def NormaliseProbabilities_def gen_cell_def fl_div_int_def
  upto_rec1

lemma small_world_generated:
  "GenerateWorld example_rand (ClearWorld (NormaliseProbabilities small_generator), 0)
     = Inr (small_world, 4)"
  by (simp add: generation_defs example_defs Let_def)

lemma small_generator_Generate:
  "Generate example_rand (small_generator, 0) = Inr (small_world, 4)"
  using small_world_generated by (simp add: Generate_def)


section \<open>Claims\<close>

subsection \<open>Which candidates contribute\<close>

text \<open>
  C1, as stated, fails. In a world of one free tile and one obstacle, with a split
  threshold of one, the pass leaves the field \<open>(-4, 0)\<close> on the free tile: it is the
  contribution of the obstacle, which the index returns among the candidates at the free
  tile's location. A sum over the non-obstacle candidates would be zero.
\<close>

theorem obstacles_contribute_counterexample:
  "field_after (CalculateField example_config example_falloff obstacle_pair) 0
     = Some \<lparr>X = - 4, Y = 0\<rparr> \<and>
   candidates_after (CalculateField example_config example_falloff obstacle_pair)
       (Location (world obstacle_pair ! 0)) = Some [0, 1] \<and>
   Tile.Type (world obstacle_pair ! 1) = ettObstructed \<and>
   obstacle_free_sum example_falloff (world obstacle_pair) 0 [0, 1] = \<lparr>X = 0, Y = 0\<rparr> \<and>
   CalculateFieldTo example_falloff (world obstacle_pair ! 1) (world obstacle_pair ! 0)
     = \<lparr>X = - 4, Y = 0\<rparr>"
  by (simp add: example_defs eval_defs field_after_def candidates_after_def
      obstacle_free_sum_def)

text \<open>
  C1, amended: after a pass that returns, the field of every tile that is not an obstacle
  is the sum, in candidate order, of \<^verbatim>\<open>CalculateFieldTo\<close> over all candidates that the
  index returns at the tile's location other than the tile itself. The type of a
  candidate is not looked at: obstacles contribute like any other tile.
\<close>

theorem field_sums_every_other_candidate:
  assumes "CalculateField cfg falloff s = Inr s'"
    and "i < length (world s)"
    and "Tile.Type (world s ! i) \<noteq> ettObstructed"
  shows "\<exists>candidates.
           ReturnSelectedNode s' (Location (world s ! i)) = Inr candidates \<and>
           LocalFieldValue (world s' ! i) =
             fold (\<lambda>other acc. vadd acc (CalculateFieldTo falloff (world s ! other) (world s ! i)))
               (filter (\<lambda>other. other \<noteq> i) candidates) Vector2f_Zero"
proof -
  obtain cs where cs: "Node_FindTiles (pass_root cfg s) (Location (world s ! i)) = Some cs"
    using CalculateField_candidates [OF assms] by blast
  have "ReturnSelectedNode s' (Location (world s ! i)) = Inr cs"
    using CalculateField_frame(1) [OF assms(1)] cs by (simp add: ReturnSelectedNode_def)
  moreover have "LocalFieldValue (world s' ! i) = contribution_sum falloff (world s) i cs"
    using CalculateField_field [OF assms(1,2)] assms(3) cs by (simp add: final_field_def)
  ultimately show ?thesis
    by (auto simp: contribution_sum_def)
qed

theorem field_sums_every_other_candidate_witness:
  "CalculateField example_config example_falloff obstacle_pair
     = Inr (projr (CalculateField example_config example_falloff obstacle_pair)) \<and>
   (0::nat) < length (world obstacle_pair) \<and>
   Tile.Type (world obstacle_pair ! 0) \<noteq> ettObstructed \<and>
   (\<exists>candidates.
      ReturnSelectedNode (projr (CalculateField example_config example_falloff obstacle_pair))
        (Location (world obstacle_pair ! 0)) = Inr candidates \<and>
      LocalFieldValue
        (world (projr (CalculateField example_config example_falloff obstacle_pair)) ! 0) =
        fold (\<lambda>other acc. vadd acc
                (CalculateFieldTo example_falloff (world obstacle_pair ! other)
                   (world obstacle_pair ! 0)))
          (filter (\<lambda>other. other \<noteq> 0) candidates) Vector2f_Zero)"
  using field_sums_every_other_candidate [of example_config example_falloff obstacle_pair
      "projr (CalculateField example_config example_falloff obstacle_pair)" 0]
  by (simp add: example_defs eval_defs)

subsection \<open>Obstacles\<close>

text \<open>
  C2, as stated, fails: the reset of line 77 comes before the obstacle test of line 84.
  An obstacle that starts the pass with the field \<open>(1, 1)\<close> ends it with the field
  \<open>(0, 0)\<close>.
\<close>

theorem obstacle_field_reset_counterexample:
  "LocalFieldValue (world stale_obstacle ! 0) = \<lparr>X = 1, Y = 1\<rparr> \<and>
   Tile.Type (world stale_obstacle ! 0) = ettObstructed \<and>
   field_after (CalculateField example_config example_falloff stale_obstacle) 0
     = Some \<lparr>X = 0, Y = 0\<rparr>"
  by (simp add: example_defs more_example_defs eval_defs field_after_def)

text \<open>
  C2, amended: a pass that returns leaves every obstacle with the zero field and
  otherwise as it was: the field is reset and nothing is accumulated into it.
\<close>

theorem obstacle_field_is_zero:
  assumes "CalculateField cfg falloff s = Inr s'"
    and "i < length (world s)"
    and "Tile.Type (world s ! i) = ettObstructed"
  shows "world s' ! i = (world s ! i)\<lparr>LocalFieldValue := Vector2f_Zero\<rparr>"
proof (rule tile_eq_reset)
  show "reset_field (world s' ! i) = reset_field ((world s ! i)\<lparr>LocalFieldValue := Vector2f_Zero\<rparr>)"
    using CalculateField_frame(7) [OF assms(1), of i] by simp
  show "LocalFieldValue (world s' ! i)
          = LocalFieldValue ((world s ! i)\<lparr>LocalFieldValue := Vector2f_Zero\<rparr>)"
    using CalculateField_field [OF assms(1,2)] assms(3) by (simp add: final_field_def)
qed

theorem obstacle_field_is_zero_witness:
  "CalculateField example_config example_falloff stale_obstacle
     = Inr (projr (CalculateField example_config example_falloff stale_obstacle)) \<and>
   (0::nat) < length (world stale_obstacle) \<and>
   Tile.Type (world stale_obstacle ! 0) = ettObstructed \<and>
   world (projr (CalculateField example_config example_falloff stale_obstacle)) ! 0
     = (world stale_obstacle ! 0)\<lparr>LocalFieldValue := Vector2f_Zero\<rparr>"
  using obstacle_field_is_zero [of example_config example_falloff stale_obstacle
      "projr (CalculateField example_config example_falloff stale_obstacle)" 0]
  by (simp add: example_defs more_example_defs eval_defs)

subsection \<open>Containment\<close>




subsection \<open>Self-exclusion\<close>

text \<open>
  C4: after a pass that returns, the field of a tile that is not an obstacle is the sum
  over the candidates with the tile's own pointer removed. The comparison is on the
  pointer (the index in \<^verbatim>\<open>world\<close>), not on the value: a different tile at the identical
  location that is among the candidates stays in the sum.
\<close>

theorem field_excludes_self:
  assumes "CalculateField cfg falloff s = Inr s'"
    and "i < length (world s)"
    and "Tile.Type (world s ! i) \<noteq> ettObstructed"
  shows "\<exists>candidates.
           ReturnSelectedNode s' (Location (world s ! i)) = Inr candidates \<and>
           i \<notin> set (removeAll i candidates) \<and>
           (\<forall>j \<in> set candidates. j \<noteq> i \<and> Location (world s ! j) = Location (world s ! i)
              \<longrightarrow> j \<in> set (removeAll i candidates)) \<and>
           LocalFieldValue (world s' ! i) =
             fold (\<lambda>other acc. vadd acc (CalculateFieldTo falloff (world s ! other) (world s ! i)))
               (removeAll i candidates) Vector2f_Zero"
proof -
  obtain cs where cs: "Node_FindTiles (pass_root cfg s) (Location (world s ! i)) = Some cs"
    using CalculateField_candidates [OF assms] by blast
  have "ReturnSelectedNode s' (Location (world s ! i)) = Inr cs"
    using CalculateField_frame(1) [OF assms(1)] cs by (simp add: ReturnSelectedNode_def)
  moreover have "LocalFieldValue (world s' ! i) = contribution_sum falloff (world s) i cs"
    using CalculateField_field [OF assms(1,2)] assms(3) cs by (simp add: final_field_def)
  moreover have "filter (\<lambda>other. other \<noteq> i) cs = removeAll i cs"
    by (induction cs) auto
  ultimately show ?thesis
    by (auto simp: contribution_sum_def)
qed

theorem field_excludes_self_witness:
  "CalculateField example_config constant_falloff twin_tiles
     = Inr (projr (CalculateField example_config constant_falloff twin_tiles)) \<and>
   (0::nat) < length (world twin_tiles) \<and>
   Tile.Type (world twin_tiles ! 0) \<noteq> ettObstructed \<and>
   world twin_tiles ! 1 = world twin_tiles ! 0 \<and>
   ReturnSelectedNode (projr (CalculateField example_config constant_falloff twin_tiles))
     (Location (world twin_tiles ! 0)) = Inr [0, 1] \<and>
   removeAll 0 [0, 1 :: nat] = [1] \<and>
   LocalFieldValue (world (projr (CalculateField example_config constant_falloff twin_tiles)) ! 0)
     = \<lparr>X = 3, Y = 10\<rparr> \<and>
   (\<exists>candidates.
      ReturnSelectedNode (projr (CalculateField example_config constant_falloff twin_tiles))
        (Location (world twin_tiles ! 0)) = Inr candidates \<and>
      LocalFieldValue
        (world (projr (CalculateField example_config constant_falloff twin_tiles)) ! 0) =
        fold (\<lambda>other acc. vadd acc
                (CalculateFieldTo constant_falloff (world twin_tiles ! other)
                   (world twin_tiles ! 0)))
          (removeAll 0 candidates) Vector2f_Zero)"
  using field_excludes_self [of example_config constant_falloff twin_tiles
      "projr (CalculateField example_config constant_falloff twin_tiles)" 0]
  by (simp add: example_defs more_example_defs eval_defs)

subsection \<open>The largest field strength\<close>

text \<open>
  C5: after a pass that returns, \<^verbatim>\<open>largestFieldStrength\<close> is 0 when no tile was processed
  and otherwise the maximum, over the tiles that are not obstacles, of the magnitude of
  the tile's final field. With a single tile in the world it is that tile's field
  magnitude, which is zero.
\<close>

theorem largest_is_max_magnitude:
  assumes "CalculateField cfg falloff s = Inr s'"
  shows "(processed s' = [] \<longrightarrow> largestFieldStrength s' = Some 0) \<and>
         (processed s' \<noteq> [] \<longrightarrow>
            largestFieldStrength s' =
              Some (Max (set (map (\<lambda>i. Magnitude (LocalFieldValue (world s' ! i)))
                                (processed s'))))) \<and>
         (length (world s) = 1 \<longrightarrow>
            largestFieldStrength s' = Some (Magnitude (LocalFieldValue (world s' ! 0))) \<and>
            Magnitude (LocalFieldValue (world s' ! 0)) = 0)"
proof -
  let ?M = "set (map (\<lambda>i. Magnitude (LocalFieldValue (world s' ! i))) (processed s'))"
  have largest: "largestFieldStrength s' = Some (Max (insert 0 ?M))"
    using CalculateField_largest [OF assms] by (simp only: magnitudes_after [OF assms])
  have empty: "largestFieldStrength s' = Some 0" if "processed s' = []"
    using largest that by simp
  have nonempty: "largestFieldStrength s' = Some (Max ?M)" if "processed s' \<noteq> []"
  proof -
    have "Max (insert 0 ?M) = Max ?M"
      by (rule Max_insert_zero) (use that in \<open>auto simp: Magnitude_nonneg\<close>)
    then show ?thesis using largest by simp
  qed
  have single: "largestFieldStrength s' = Some (Magnitude (LocalFieldValue (world s' ! 0))) \<and>
      Magnitude (LocalFieldValue (world s' ! 0)) = 0" if one: "length (world s) = 1"
  proof -
    have z: "LocalFieldValue (world s' ! 0) = Vector2f_Zero"
      by (rule single_tile_field [OF assms one])
    have "processed s = [] \<or> processed s = [0]"
      using one by (simp add: processed_def)
    then have "processed s' = [] \<or> processed s' = [0]"
      by (simp only: processed_after [OF assms])
    then have "largestFieldStrength s' = Some 0"
      using empty nonempty z by auto
    then show ?thesis using z by simp
  qed
  from empty nonempty single show ?thesis by blast
qed

theorem largest_is_max_magnitude_witness:
  "CalculateField example_config example_falloff obstacle_pair
     = Inr (projr (CalculateField example_config example_falloff obstacle_pair)) \<and>
   processed (projr (CalculateField example_config example_falloff obstacle_pair)) = [0] \<and>
   largestFieldStrength (projr (CalculateField example_config example_falloff obstacle_pair))
     = Some 4 \<and>
   largestFieldStrength (projr (CalculateField example_config example_falloff obstacle_pair))
     = Some (Max (set (map (\<lambda>i. Magnitude (LocalFieldValue
          (world (projr (CalculateField example_config example_falloff obstacle_pair)) ! i)))
          (processed (projr (CalculateField example_config example_falloff obstacle_pair)))))) \<and>
   CalculateField example_config example_falloff stale_obstacle
     = Inr (projr (CalculateField example_config example_falloff stale_obstacle)) \<and>
   processed (projr (CalculateField example_config example_falloff stale_obstacle)) = [] \<and>
   largestFieldStrength (projr (CalculateField example_config example_falloff stale_obstacle))
     = Some 0 \<and>
   CalculateField example_config example_falloff lone_tile
     = Inr (projr (CalculateField example_config example_falloff lone_tile)) \<and>
   length (world lone_tile) = 1 \<and>
   largestFieldStrength (projr (CalculateField example_config example_falloff lone_tile))
     = Some (Magnitude (LocalFieldValue
         (world (projr (CalculateField example_config example_falloff lone_tile)) ! 0))) \<and>
   Magnitude (LocalFieldValue
     (world (projr (CalculateField example_config example_falloff lone_tile)) ! 0)) = 0"
  using largest_is_max_magnitude [of example_config example_falloff obstacle_pair
      "projr (CalculateField example_config example_falloff obstacle_pair)"]
    largest_is_max_magnitude [of example_config example_falloff stale_obstacle
      "projr (CalculateField example_config example_falloff stale_obstacle)"]
    largest_is_max_magnitude [of example_config example_falloff lone_tile
      "projr (CalculateField example_config example_falloff lone_tile)"]
  by (simp add: example_defs more_example_defs lone_tile_def eval_defs)

subsection \<open>Query points\<close>

text \<open>
  C6: \<^verbatim>\<open>GenerateWorld\<close>, started on an empty world as \<^verbatim>\<open>Generate\<close> starts it, places every
  tile at a location \<open>(lengthIndex, widthIndex)\<close> of the grid, where \<open>lengthIndex\<close>
  ranges over \<open>0 .. Length - 1\<close> and \<open>widthIndex\<close> over \<open>0 .. Width - 1\<close>. Each of these
  locations lies in the root box from \<open>(0, 0)\<close> to \<open>(Length, Width)\<close>. A pass over the
  generated world returns (no query is undefined), and every point it queries lies in
  the root box.
\<close>

theorem generated_queries_in_bounds:
  assumes "GenerateWorld rand (s, n) = Inr (s1, n1)"
    and "world s = []"
  shows "(\<forall>t \<in> set (world s1).
            on_grid s1 t \<and> AABB_contains (worldBounds s1) (Location t)) \<and>
         (\<exists>s2. CalculateField cfg falloff s1 = Inr s2 \<and>
            (\<forall>p. CallFindTiles p \<in> set (pass_calls s1 s2)
                 \<longrightarrow> AABB_contains (worldBounds s1) p))"
proof -
  from GenerateWorld_Inr [OF assms(1)] obtain new where
    new: "s1 = s\<lparr>world := world s @ new\<rparr>" "\<forall>t \<in> set new. on_grid s t"
    by blast
  have "on_grid s1 t = on_grid s t" for t
    using new(1) by (simp add: on_grid_def)
  then have grid: "\<forall>t \<in> set (world s1). on_grid s1 t"
    using new assms(2) by simp
  then have inside: "AABB_contains (worldBounds s1) (Location (world s1 ! i))"
    if "i < length (world s1)" for i
    using that on_grid_in_bounds by simp
  obtain s2 where s2: "CalculateField cfg falloff s1 = Inr s2"
    using CalculateField_total [of s1 cfg falloff] pass_root_defined [OF inside] by fastforce
  have "AABB_contains (worldBounds s1) p" if "CallFindTiles p \<in> set (pass_calls s1 s2)" for p
  proof -
    from that obtain i where "i \<in> set (processed s1)" "p = Location (world s1 ! i)"
      unfolding pass_calls_eq [OF s2] by auto
    then show ?thesis
      using inside [of i] by (simp add: processed_def)
  qed
  with grid s2 show ?thesis
    using on_grid_in_bounds by blast
qed

theorem generated_queries_in_bounds_witness:
  "GenerateWorld example_rand (ClearWorld (NormaliseProbabilities small_generator), 0)
     = Inr (small_world, 4) \<and>
   world (ClearWorld (NormaliseProbabilities small_generator)) = [] \<and>
   map Location (world small_world)
     = [\<lparr>X = 0, Y = 0\<rparr>, \<lparr>X = 0, Y = 1\<rparr>, \<lparr>X = 1, Y = 0\<rparr>, \<lparr>X = 1, Y = 1\<rparr>] \<and>
   worldBounds small_world = \<lparr>boxMin = \<lparr>X = 0, Y = 0\<rparr>, boxMax = \<lparr>X = 2, Y = 2\<rparr>\<rparr> \<and>
   (\<exists>s2. CalculateField example_config example_falloff small_world = Inr s2 \<and>
      (\<forall>p. CallFindTiles p \<in> set (pass_calls small_world s2)
           \<longrightarrow> AABB_contains (worldBounds small_world) p))"
  using generated_queries_in_bounds [OF small_world_generated,
      of example_config example_falloff]
  by (simp add: generation_defs example_defs worldBounds_def Vector2f_Zero_def)

subsection \<open>The empty world\<close>

text \<open>
  C7: with no tile in \<^verbatim>\<open>world\<close>, a pass returns normally. Nothing is inserted: the index
  is the root as constructed, and a query on it returns the empty candidate set at every
  point, not an error. No tile field is written (there is none), and
  \<^verbatim>\<open>largestFieldStrength\<close> is 0.
\<close>

theorem empty_world_pass:
  assumes "world s = []"
  shows "CalculateField cfg falloff s =
           Inr (s\<lparr>largestFieldStrength := Some 0,
                  rootNode := Some (Node_new Vector2f_Zero
                    \<lparr>X = real_of_int (Length s), Y = real_of_int (Width s)\<rparr> None 0),
                  indexCalls := indexCalls s @ [CallNew (worldBounds s) None 0]\<rparr>) \<and>
         Node_FindTiles (Node_new Vector2f_Zero
             \<lparr>X = real_of_int (Length s), Y = real_of_int (Width s)\<rparr> None 0) p = Some []"
  using assms by (simp add: CalculateField_def Let_def worldBounds_def)

theorem empty_world_pass_witness:
  "world empty_world = [] \<and>
   CalculateField example_config example_falloff empty_world =
     Inr (empty_world\<lparr>largestFieldStrength := Some 0,
            rootNode := Some (Node_new Vector2f_Zero \<lparr>X = 3, Y = 2\<rparr> None 0),
            indexCalls := [CallNew \<lparr>boxMin = Vector2f_Zero, boxMax = \<lparr>X = 3, Y = 2\<rparr>\<rparr> None 0]\<rparr>) \<and>
   Node_FindTiles (Node_new Vector2f_Zero \<lparr>X = 3, Y = 2\<rparr> None 0) \<lparr>X = 7, Y = 7\<rparr> = Some [] \<and>
   ReturnSelectedNode (projr (CalculateField example_config example_falloff empty_world))
     \<lparr>X = 1, Y = 1\<rparr> = Inr []"
  using empty_world_pass [of empty_world example_config example_falloff "\<lparr>X = 7, Y = 7\<rparr>"]
  by (simp add: empty_world_def TiledWorldGenerator_new_def worldBounds_def
      ReturnSelectedNode_def)

subsection \<open>Build, then query\<close>

text \<open>
  C8: a pass that returns has made its calls on the index in this order: the construction
  of a root covering the world bounds, with no parent and depth 0; then one insertion per
  tile of \<^verbatim>\<open>world\<close>, in order; then one query per tile that is not an obstacle, in order.
  No insertion follows a query. The index that \<^verbatim>\<open>rootNode\<close> holds afterwards is the fresh
  root with exactly these insertions applied, whatever \<^verbatim>\<open>rootNode\<close> held before.
\<close>

theorem build_then_query:
  assumes "CalculateField cfg falloff s = Inr s'"
  shows "indexCalls s' =
           indexCalls s
           @ [CallNew \<lparr>boxMin = Vector2f_Zero,
                       boxMax = \<lparr>X = real_of_int (Length s), Y = real_of_int (Width s)\<rparr>\<rparr> None 0]
           @ map CallAddObject [0 ..< length (world s)]
           @ map (\<lambda>i. CallFindTiles (Location (world s ! i))) (processed s) \<and>
         rootNode s' =
           Some (fold (\<lambda>tile node. Node_AddObject cfg (world s) node tile)
                   [0 ..< length (world s)]
                   (Node_new Vector2f_Zero
                      \<lparr>X = real_of_int (Length s), Y = real_of_int (Width s)\<rparr> None 0)) \<and>
         (\<exists>node. rootNode s' = Some node \<and> depth node = 0 \<and> parent node = None \<and>
            bounds node = \<lparr>boxMin = Vector2f_Zero,
                       boxMax = \<lparr>X = real_of_int (Length s), Y = real_of_int (Width s)\<rparr>\<rparr>)"
proof -
  have root: "rootNode s' = Some (pass_root cfg s)"
    by (rule CalculateField_frame(1) [OF assms])
  have "parent (pass_root cfg s) = None"
    by (simp add: pass_root_def Node_new_def)
  then show ?thesis
    using CalculateField_calls [OF assms] root
    by (simp add: upt_processed) (simp add: pass_root_def build_tree_def worldBounds_def)
qed

theorem build_then_query_witness:
  "CalculateField example_config example_falloff obstacle_pair
     = Inr (projr (CalculateField example_config example_falloff obstacle_pair)) \<and>
   indexCalls (projr (CalculateField example_config example_falloff obstacle_pair)) =
     [CallNew \<lparr>boxMin = Vector2f_Zero, boxMax = \<lparr>X = 2, Y = 1\<rparr>\<rparr> None 0,
      CallAddObject 0, CallAddObject 1, CallFindTiles \<lparr>X = 0, Y = 0\<rparr>] \<and>
   rootNode (projr (CalculateField example_config example_falloff obstacle_pair)) =
     Some (fold (\<lambda>tile node. Node_AddObject example_config (world obstacle_pair) node tile)
             [0 ..< length (world obstacle_pair)]
             (Node_new Vector2f_Zero \<lparr>X = 2, Y = 1\<rparr> None 0))"
  using build_then_query [of example_config example_falloff obstacle_pair
      "projr (CalculateField example_config example_falloff obstacle_pair)"]
  by (simp add: example_defs eval_defs)

subsection \<open>Determinism\<close>

text \<open>
  C9: the per-tile fields and the largest field strength that a pass produces are a
  function of the world's dimensions and of the tiles' types, colours, locations,
  strengths and ranges, in order. Two passes over generators that agree on these agree on
  their output, whatever the fields, the index, the largest field strength and the
  generator's other members were before; both fail if one does.
\<close>

theorem pass_is_deterministic:
  assumes "Length s1 = Length s2" and "Width s1 = Width s2"
    and "map tile_data (world s1) = map tile_data (world s2)"
  shows "pass_output (CalculateField cfg falloff s1) = pass_output (CalculateField cfg falloff s2)"
proof -
  have reset: "map reset_field (world s1) = map reset_field (world s2)"
    using assms(3) by (rule same_data_same_reset)
  have len: "length (world s1) = length (world s2)"
    using arg_cong [OF reset, of length] by simp
  have same: "reset_field (world s1 ! j) = reset_field (world s2 ! j)"
    if "j < length (world s2)" for j
    using arg_cong [OF reset, of "\<lambda>xs. xs ! j"] that len by simp
  have root: "pass_root cfg s1 = pass_root cfg s2"
    by (rule pass_root_cong [OF assms(1,2) reset])
  have sub: "tiles_of (pass_root cfg s2) \<subseteq> {..<length (world s2)}"
    by (rule tiles_of_pass_root)
  show ?thesis
  proof (cases "CalculateField cfg falloff s1")
    case (Inr s1')
    obtain s2' where s2': "CalculateField cfg falloff s2 = Inr s2'"
      using CalculateField_Inr_transfer [OF Inr assms(1,2) reset] by blast
    have "map (final_field falloff (pass_root cfg s2) (world s1)) [0 ..< length (world s2)]
            = map (final_field falloff (pass_root cfg s2) (world s2)) [0 ..< length (world s2)]"
      using final_field_cong_bounded [OF same _ sub] by simp
    moreover have "magnitudes falloff (pass_root cfg s2) (world s1) {..<length (world s2)}
            = magnitudes falloff (pass_root cfg s2) (world s2) {..<length (world s2)}"
      by (rule magnitudes_cong_bounded [OF same sub])
    ultimately show ?thesis
      unfolding CalculateField_output [OF Inr] CalculateField_output [OF s2'] root len
      by simp
  next
    case (Inl e1)
    have e1: "e1 = QueryOutsideRoot"
      using CalculateField_error [OF Inl] by simp
    show ?thesis
    proof (cases "CalculateField cfg falloff s2")
      case (Inr s2')
      then have "\<exists>s1'. CalculateField cfg falloff s1 = Inr s1'"
        using CalculateField_Inr_transfer [OF Inr assms(1,2) [symmetric] reset [symmetric]]
        by blast
      then show ?thesis using Inl by simp
    next
      case e2: (Inl e2)
      then show ?thesis
        using CalculateField_error [OF e2] Inl e1 by (simp add: pass_output_def)
    qed
  qed
qed

theorem pass_is_deterministic_witness:
  "Length obstacle_pair
     = Length (projr (CalculateField example_config example_falloff obstacle_pair)) \<and>
   Width obstacle_pair
     = Width (projr (CalculateField example_config example_falloff obstacle_pair)) \<and>
   map tile_data (world obstacle_pair)
     = map tile_data (world (projr (CalculateField example_config example_falloff obstacle_pair))) \<and>
   obstacle_pair \<noteq> projr (CalculateField example_config example_falloff obstacle_pair) \<and>
   pass_output (CalculateField example_config example_falloff obstacle_pair)
     = Inr ([\<lparr>X = - 4, Y = 0\<rparr>, \<lparr>X = 0, Y = 0\<rparr>], Some 4) \<and>
   pass_output (CalculateField example_config example_falloff obstacle_pair)
     = pass_output (CalculateField example_config example_falloff
         (projr (CalculateField example_config example_falloff obstacle_pair)))"
  using pass_is_deterministic [of obstacle_pair
      "projr (CalculateField example_config example_falloff obstacle_pair)"
      example_config example_falloff]
  by (simp add: example_defs eval_defs tile_data_def pass_output_def)

subsection \<open>The root pointer\<close>

text \<open>
  C10: the constructor leaves \<^verbatim>\<open>rootNode\<close> without a value, and \<^verbatim>\<open>ReturnSelectedNode\<close> on
  a generator whose \<^verbatim>\<open>rootNode\<close> has no value dereferences an invalid pointer.
  \<^verbatim>\<open>Generate\<close> does not assign \<^verbatim>\<open>rootNode\<close>. A pass that returns leaves a node in
  \<^verbatim>\<open>rootNode\<close>, and \<^verbatim>\<open>ReturnSelectedNode\<close> then is the query on that node.
\<close>

theorem root_assigned_by_pass:
  "rootNode TiledWorldGenerator_new = None \<and>
   (rootNode s = None \<longrightarrow> ReturnSelectedNode s target = Inl InvalidRootDereference) \<and>
   (Generate rand (s, n) = Inr (s1, n1) \<longrightarrow> rootNode s1 = rootNode s) \<and>
   (CalculateField cfg falloff s = Inr s2 \<longrightarrow>
      (\<exists>node. rootNode s2 = Some node \<and>
         ReturnSelectedNode s2 target =
           (case Node_FindTiles node target of
              None \<Rightarrow> Inl QueryOutsideRoot
            | Some tiles \<Rightarrow> Inr tiles)))"
proof (intro conjI impI)
  show "rootNode TiledWorldGenerator_new = None"
    by (simp add: TiledWorldGenerator_new_def)
  show "ReturnSelectedNode s target = Inl InvalidRootDereference" if "rootNode s = None"
    using that by (simp add: ReturnSelectedNode_def)
  show "rootNode s1 = rootNode s" if "Generate rand (s, n) = Inr (s1, n1)"
    using Generate_Inr(1) [OF that] .
  show "\<exists>node. rootNode s2 = Some node \<and>
         ReturnSelectedNode s2 target =
           (case Node_FindTiles node target of
              None \<Rightarrow> Inl QueryOutsideRoot
            | Some tiles \<Rightarrow> Inr tiles)"
    if "CalculateField cfg falloff s = Inr s2"
    using CalculateField_frame(1) [OF that] by (simp add: ReturnSelectedNode_def)
qed

theorem root_assigned_by_pass_witness:
  "rootNode small_generator = None \<and>
   ReturnSelectedNode small_generator \<lparr>X = 1, Y = 1\<rparr> = Inl InvalidRootDereference \<and>
   Generate example_rand (small_generator, 0) = Inr (small_world, 4) \<and>
   rootNode small_world = None \<and>
   ReturnSelectedNode small_world \<lparr>X = 1, Y = 1\<rparr> = Inl InvalidRootDereference \<and>
   CalculateField coarse_config constant_falloff small_world
     = Inr (projr (CalculateField coarse_config constant_falloff small_world)) \<and>
   rootNode (projr (CalculateField coarse_config constant_falloff small_world)) \<noteq> None \<and>
   ReturnSelectedNode (projr (CalculateField coarse_config constant_falloff small_world))
     \<lparr>X = 1, Y = 1\<rparr> = Inr [0, 1, 2, 3]"
  using root_assigned_by_pass [of small_generator "\<lparr>X = 1, Y = 1\<rparr>" example_rand 0
      small_world 4 coarse_config constant_falloff
      "projr (CalculateField coarse_config constant_falloff small_generator)"]
    root_assigned_by_pass [of small_world "\<lparr>X = 1, Y = 1\<rparr>" example_rand 0
      small_world 4 coarse_config constant_falloff
      "projr (CalculateField coarse_config constant_falloff small_world)"]
    small_generator_Generate
  by (simp add: small_generator_def small_world_def coarse_config_def constant_falloff_def example_defs eval_defs)

end
